theory Spec2Isabelle
  imports Complex_Main "HOL-Library.Multiset"
begin

section \<open>Data model (app/models.py, app/schemas.py)\<close>

text \<open>
  Python's \<open>datetime.date\<close> is a record of year, month and day, compared
  lexicographically; \<open>datetime.datetime\<close> extends it by the time of day. The clock
  (\<open>date.today()\<close>, \<open>datetime.utcnow()\<close>) is an input of every operation that reads it.
  Float columns only carry amounts that are copied and compared with zero, so they are
  reals here.
\<close>

record date =
  year :: int
  month :: int
  day :: int

record datetime = date +
  time_of_day :: nat

definition date_lt :: "date \<Rightarrow> date \<Rightarrow> bool" where
  "date_lt a b =
     (year a < year b \<or>
      (year a = year b \<and> (month a < month b \<or> (month a = month b \<and> day a < day b))))"

definition date_le :: "date \<Rightarrow> date \<Rightarrow> bool" where
  "date_le a b = (date_lt a b \<or> (year a = year b \<and> month a = month b \<and> day a = day b))"

record position =
  pos_id :: int
  pos_name :: string
  pos_description :: "string option"
  base_salary :: real

record manual_expense =
  me_id :: int
  me_date :: date
  me_category :: string
  me_description :: "string option"
  me_value :: real
  me_responsible :: string
  me_created_at :: datetime

record employee_payment_status =
  eps_id :: int
  employee_id :: string
  position_name :: "string option"
  paid :: bool
  last_payment :: "datetime option"
  eps_created_at :: datetime
  eps_updated_at :: datetime

record payment_cycle_config =
  cfg_id :: int
  reset_day :: int
  last_reset_date :: "date option"
  cfg_created_at :: datetime
  cfg_updated_at :: datetime

record expense =
  exp_id :: int
  description :: string
  amount :: real
  expense_date :: date
  expense_type :: string
  reference_id :: "int option"
  exp_created_at :: datetime

text \<open>
  The relational store: one list per table, in insertion order, and for each table with
  inserts the next value of its primary-key sequence (PostgreSQL, app/database.py).
\<close>

record db =
  positions :: "position list"
  manual_expenses :: "manual_expense list"
  employee_payment_statuses :: "employee_payment_status list"
  payment_cycle_configs :: "payment_cycle_config list"
  expenses :: "expense list"
  manual_expenses_seq :: int
  employee_payment_status_seq :: int
  payment_cycle_config_seq :: int
  expenses_seq :: int

definition empty_db :: db where
  "empty_db =
     \<lparr>positions = [], manual_expenses = [], employee_payment_statuses = [],
      payment_cycle_configs = [], expenses = [],
      manual_expenses_seq = 1, employee_payment_status_seq = 1,
      payment_cycle_config_seq = 1, expenses_seq = 1\<rparr>"

datatype error =
  JSONDecodeError
  | TypeError
  | ValidationError
  | HTTP_400_BAD_REQUEST
  | HTTP_404_NOT_FOUND
  | MultipleResultsFound
  | IntegrityError
  | DBAPIError
  | ValueError

text \<open>\<open>Result.scalar_one_or_none()\<close>: no row, the one row, or an exception.\<close>

fun scalar_one_or_none :: "'a list \<Rightarrow> error + 'a option" where
  "scalar_one_or_none [] = Inr None"
| "scalar_one_or_none [x] = Inr (Some x)"
| "scalar_one_or_none (x # y # zs) = Inl MultipleResultsFound"

text \<open>Truthiness of an \<open>Optional[int]\<close> and of an \<open>Optional[str]\<close>.\<close>

fun truthy_int :: "int option \<Rightarrow> bool" where
  "truthy_int None = False"
| "truthy_int (Some n) = (n \<noteq> 0)"

fun truthy_str :: "string option \<Rightarrow> bool" where
  "truthy_str None = False"
| "truthy_str (Some s) = (s \<noteq> [])"

section \<open>Unified ledger listing (app/services/expense_service.py)\<close>

text \<open>
  \<open>select(Expense).order_by(Expense.expense_date.desc())\<close> names one sort key. The
  storage engine is free in the order of rows with equal keys, so the order in which it
  visits the table is a parameter \<open>scan\<close> of the query; the rows it visits are then
  sorted on the key alone. LIMIT and OFFSET are applied by the engine to the sorted rows,
  OFFSET first; PostgreSQL rejects a negative LIMIT or OFFSET.
\<close>

fun insert_desc :: "expense \<Rightarrow> expense list \<Rightarrow> expense list" where
  "insert_desc e [] = [e]"
| "insert_desc e (x # xs) =
     (if date_le (expense_date x) (expense_date e) then e # x # xs
      else x # insert_desc e xs)"

definition order_by_expense_date_desc :: "expense list \<Rightarrow> expense list" where
  "order_by_expense_date_desc rows = foldr insert_desc rows []"

definition get_all_expenses ::
  "(expense list \<Rightarrow> expense list) \<Rightarrow> db \<Rightarrow> int option \<Rightarrow> int option \<Rightarrow> error + expense list" where
  "get_all_expenses scan s limit offset =
     (let ordered = order_by_expense_date_desc (scan (expenses s));
          lim = (if truthy_int limit then limit else None);
          off = (if truthy_int offset then offset else None)
      in if (case lim of None \<Rightarrow> False | Some n \<Rightarrow> n < 0)
            \<or> (case off of None \<Rightarrow> False | Some k \<Rightarrow> k < 0)
         then Inl DBAPIError
         else
           (let skipped = (case off of None \<Rightarrow> ordered | Some k \<Rightarrow> drop (nat k) ordered)
            in Inr (case lim of None \<Rightarrow> skipped | Some n \<Rightarrow> take (nat n) skipped)))"

text \<open>Descending order of \<open>expense_date\<close>: each row's date is at least that of every later row.\<close>

definition date_desc :: "expense \<Rightarrow> expense \<Rightarrow> bool" where
  "date_desc a b = date_le (expense_date b) (expense_date a)"

text \<open>The route \<open>GET /expenses/\<close> with its defaults \<open>limit = 50\<close>, \<open>offset = 0\<close>.\<close>

definition get_all_expenses_route ::
  "(expense list \<Rightarrow> expense list) \<Rightarrow> db \<Rightarrow> int option \<Rightarrow> int option \<Rightarrow> error + expense list" where
  "get_all_expenses_route scan s limit offset =
     get_all_expenses scan s
       (Some (case limit of None \<Rightarrow> 50 | Some n \<Rightarrow> n))
       (Some (case offset of None \<Rightarrow> 0 | Some k \<Rightarrow> k))"

section \<open>Event ingestion (app/consumers.py)\<close>

text \<open>
  A message body is JSON text. \<open>json.loads\<close> fails on anything else (\<open>None\<close> here);
  an object becomes a dict in which the last of several equal keys wins, and any other
  JSON value makes one of the following statements raise. A number is the \<open>int\<close> or
  \<open>float\<close> the decoder made of it, \<open>NaN\<close> and the two infinities included. Every
  exception is caught by the handler's \<open>except Exception\<close>, which prints a line and
  returns: the handlers return the store and the line they print.
\<close>

datatype json =
  JNull
  | JBool bool
  | JNumber real
  | JNaN
  | JInfinity
  | JMinusInfinity
  | JString string
  | JArray "json list"
  | JObject "(string \<times> json) list"

fun json_loads :: "json option \<Rightarrow> error + (string \<rightharpoonup> json)" where
  "json_loads None = Inl JSONDecodeError"
| "json_loads (Some (JObject kvs)) = Inr (map_of (rev kvs))"
| "json_loads (Some v) = Inl TypeError"

text \<open>\<open>if 'employeeId' in data and 'id' not in data: data['id'] = data['employeeId']\<close>\<close>

definition map_employeeId :: "(string \<rightharpoonup> json) \<Rightarrow> (string \<rightharpoonup> json)" where
  "map_employeeId data =
     (if data ''employeeId'' \<noteq> None \<and> data ''id'' = None
      then data(''id'' := data ''employeeId'') else data)"

text \<open>
  The event schemas of app/schemas.py. A \<open>str\<close> field takes a string and a \<open>list\<close>
  field an array. A \<open>bool\<close> field takes a boolean and what the validation library
  converts to one: the numbers 0 and 1 (as \<open>int\<close> or \<open>float\<close>) and, in any mix of
  upper and lower case, the strings \<open>0 off f false n no 1 on t true y yes\<close>. An
  \<open>Optional\<close> field may be absent or null; other keys are ignored. The handlers read
  \<open>id\<close> and \<open>role\<close> only, which are the fields the validated events keep here.
\<close>

definition ascii_lower :: "char \<Rightarrow> char" where
  "ascii_lower c =
     (case map_of (zip ''ABCDEFGHIJKLMNOPQRSTUVWXYZ'' ''abcdefghijklmnopqrstuvwxyz'') c of
        None \<Rightarrow> c
      | Some l \<Rightarrow> l)"

fun is_str :: "json option \<Rightarrow> bool" where
  "is_str (Some (JString s)) = True"
| "is_str v = False"

fun is_list :: "json option \<Rightarrow> bool" where
  "is_list (Some (JArray xs)) = True"
| "is_list v = False"

fun is_bool :: "json option \<Rightarrow> bool" where
  "is_bool (Some (JBool b)) = True"
| "is_bool (Some (JNumber x)) = (x = 0 \<or> x = 1)"
| "is_bool (Some (JString w)) =
     (map ascii_lower w \<in>
        set [''0'', ''off'', ''f'', ''false'', ''n'', ''no'',
             ''1'', ''on'', ''t'', ''true'', ''y'', ''yes''])"
| "is_bool v = False"

fun optional :: "(json option \<Rightarrow> bool) \<Rightarrow> json option \<Rightarrow> bool" where
  "optional ty None = True"
| "optional ty (Some JNull) = True"
| "optional ty v = ty v"

fun str_of :: "json option \<Rightarrow> string" where
  "str_of (Some (JString s)) = s"
| "str_of v = []"

record employee_event =
  ev_id :: string
  ev_role :: string

definition EmployeeRegistered :: "(string \<rightharpoonup> json) \<Rightarrow> error + employee_event" where
  "EmployeeRegistered data =
     (if is_str (data ''id'') \<and> is_str (data ''name'') \<and> is_str (data ''cpf'')
         \<and> is_str (data ''email'') \<and> is_str (data ''phone'')
         \<and> is_list (data ''birthDate'') \<and> is_list (data ''hireDate'')
         \<and> is_str (data ''role'')
         \<and> optional is_str (data ''roleDescription'')
         \<and> optional is_str (data ''profile_url'') \<and> optional is_str (data ''profileUrl'')
         \<and> is_list (data ''registrationDate'') \<and> is_bool (data ''active'')
         \<and> optional is_list (data ''terminationDate'')
      then Inr \<lparr>ev_id = str_of (data ''id''), ev_role = str_of (data ''role'')\<rparr>
      else Inl ValidationError)"

definition EmployeeDeleted :: "(string \<rightharpoonup> json) \<Rightarrow> error + string" where
  "EmployeeDeleted data =
     (if is_str (data ''id'') then Inr (str_of (data ''id'')) else Inl ValidationError)"

definition EmployeeRoleChanged :: "(string \<rightharpoonup> json) \<Rightarrow> error + employee_event" where
  "EmployeeRoleChanged data =
     (if is_str (data ''id'') \<and> optional is_str (data ''name'')
         \<and> optional is_str (data ''cpf'') \<and> optional is_str (data ''email'')
         \<and> optional is_str (data ''phone'')
         \<and> optional is_list (data ''birthDate'') \<and> optional is_list (data ''hireDate'')
         \<and> is_str (data ''role'')
         \<and> optional is_str (data ''roleDescription'')
         \<and> optional is_str (data ''profile_url'') \<and> optional is_str (data ''profileUrl'')
         \<and> optional is_list (data ''registrationDate'') \<and> optional is_bool (data ''active'')
         \<and> optional is_list (data ''terminationDate'')
      then Inr \<lparr>ev_id = str_of (data ''id''), ev_role = str_of (data ''role'')\<rparr>
      else Inl ValidationError)"

text \<open>
  Table \<open>employee_payment_status\<close>: \<open>employee_id\<close> is a unique \<open>String(50)\<close>,
  \<open>position_name\<close> a nullable \<open>String(100)\<close>. What PostgreSQL makes of a text
  written to a \<open>String(n)\<close> column is \<open>varchar n\<close>: a text holding the NUL character
  is refused, a text of at most \<open>n\<close> characters is stored as it is, a longer text
  whose excess characters are all spaces is cut to \<open>n\<close> characters, and any other
  longer text is refused. The engine also refuses a second row with the same
  \<open>employee_id\<close>. A row is updated through its primary key, and an UPDATE sends the
  changed columns only.
\<close>

definition varchar :: "nat \<Rightarrow> string \<Rightarrow> error + string" where
  "varchar n v =
     (if CHR 0x00 \<in> set v then Inl DBAPIError
      else if length v \<le> n then Inr v
      else if list_all (\<lambda>c. c = CHR '' '') (drop n v) then Inr (take n v)
      else Inl DBAPIError)"

definition nullable :: "('a \<Rightarrow> error + 'a) \<Rightarrow> 'a option \<Rightarrow> error + 'a option" where
  "nullable column v =
     (case v of
        None \<Rightarrow> Inr None
      | Some x \<Rightarrow> (case column x of Inl e \<Rightarrow> Inl e | Inr y \<Rightarrow> Inr (Some y)))"

definition by_employee_id :: "string \<Rightarrow> db \<Rightarrow> employee_payment_status list" where
  "by_employee_id i s = filter (\<lambda>r. employee_id r = i) (employee_payment_statuses s)"

definition add_employee_payment_status ::
  "string \<Rightarrow> string option \<Rightarrow> datetime \<Rightarrow> db \<Rightarrow> error + db" where
  "add_employee_payment_status i pos now s =
     (case varchar 50 i of
        Inl e \<Rightarrow> Inl e
      | Inr stored_id \<Rightarrow>
          (case nullable (varchar 100) pos of
             Inl e \<Rightarrow> Inl e
           | Inr stored_pos \<Rightarrow>
               (if by_employee_id stored_id s \<noteq> [] then Inl IntegrityError
                else Inr (s\<lparr>employee_payment_statuses := employee_payment_statuses s @
                               [\<lparr>eps_id = employee_payment_status_seq s,
                                 employee_id = stored_id, position_name = stored_pos,
                                 paid = False, last_payment = None,
                                 eps_created_at = now, eps_updated_at = now\<rparr>],
                             employee_payment_status_seq :=
                               employee_payment_status_seq s + 1\<rparr>))))"

definition update_employee_payment_status :: "employee_payment_status \<Rightarrow> db \<Rightarrow> db" where
  "update_employee_payment_status row s =
     s\<lparr>employee_payment_statuses :=
         map (\<lambda>r. if eps_id r = eps_id row then row else r) (employee_payment_statuses s)\<rparr>"

datatype log =
  Created_payment_status string
  | Employee_already_exists string
  | Deleted_payment_status string
  | Updated_role string string
  | Employee_not_found_for_role_update string
  | Error_processing error

definition process_employee_registered :: "json option \<Rightarrow> datetime \<Rightarrow> db \<Rightarrow> db \<times> log" where
  "process_employee_registered body now s =
     (case json_loads body of
        Inl e \<Rightarrow> (s, Error_processing e)
      | Inr data \<Rightarrow>
          (case EmployeeRegistered (map_employeeId data) of
             Inl e \<Rightarrow> (s, Error_processing e)
           | Inr employee_data \<Rightarrow>
               (case scalar_one_or_none (by_employee_id (ev_id employee_data) s) of
                  Inl e \<Rightarrow> (s, Error_processing e)
                | Inr None \<Rightarrow>
                    (case add_employee_payment_status (ev_id employee_data)
                            (Some (ev_role employee_data)) now s of
                       Inl e \<Rightarrow> (s, Error_processing e)
                     | Inr s' \<Rightarrow> (s', Created_payment_status (ev_id employee_data)))
                | Inr (Some existing) \<Rightarrow>
                    (s, Employee_already_exists (ev_id employee_data)))))"

definition process_employee_deleted :: "json option \<Rightarrow> db \<Rightarrow> db \<times> log" where
  "process_employee_deleted body s =
     (case json_loads body of
        Inl e \<Rightarrow> (s, Error_processing e)
      | Inr data \<Rightarrow>
          (case EmployeeDeleted (map_employeeId data) of
             Inl e \<Rightarrow> (s, Error_processing e)
           | Inr i \<Rightarrow>
               (s\<lparr>employee_payment_statuses :=
                    filter (\<lambda>r. employee_id r \<noteq> i) (employee_payment_statuses s)\<rparr>,
                Deleted_payment_status i)))"

definition process_employee_role_changed :: "json option \<Rightarrow> datetime \<Rightarrow> db \<Rightarrow> db \<times> log" where
  "process_employee_role_changed body now s =
     (case json_loads body of
        Inl e \<Rightarrow> (s, Error_processing e)
      | Inr data \<Rightarrow>
          (case EmployeeRoleChanged (map_employeeId data) of
             Inl e \<Rightarrow> (s, Error_processing e)
           | Inr employee_data \<Rightarrow>
               (case scalar_one_or_none (by_employee_id (ev_id employee_data) s) of
                  Inl e \<Rightarrow> (s, Error_processing e)
                | Inr (Some employee_status) \<Rightarrow>
                    (case varchar 100 (ev_role employee_data) of
                       Inl e \<Rightarrow> (s, Error_processing e)
                     | Inr stored_role \<Rightarrow>
                         (update_employee_payment_status
                            (employee_status\<lparr>position_name := Some stored_role,
                                             eps_updated_at := now\<rparr>) s,
                          Updated_role (ev_id employee_data) (ev_role employee_data)))
                | Inr None \<Rightarrow>
                    (s, Employee_not_found_for_role_update (ev_id employee_data)))))"

section \<open>Payment confirmation and dismissal (app/routes/payments.py)\<close>

text \<open>
  \<open>publish_message\<close> never raises and never touches the store: an operation hands the
  publisher a list of messages, each on its queue, in the order of the calls.
\<close>

datatype message =
  Employee_paid string real "string option" int int datetime
  | Employee_status_changed string bool
  | Employee_dismissed string datetime "string option"
  | Expense_registered real string "string option" date string
  | Expense_deleted int datetime

type_synonym outbox = "(string \<times> message) list"

text \<open>
  The salary of a position name, as both \<open>confirm_payment\<close> and
  \<open>initialize_demo_payments\<close> compute their \<open>salary_amount\<close>.
\<close>

definition salary_amount :: "db \<Rightarrow> string option \<Rightarrow> error + real" where
  "salary_amount s pos =
     (if truthy_str pos then
        (case scalar_one_or_none (filter (\<lambda>p. Some (pos_name p) = pos) (positions s)) of
           Inl e \<Rightarrow> Inl e
         | Inr (Some p) \<Rightarrow> Inr (base_salary p)
         | Inr None \<Rightarrow> Inr 0)
      else Inr 0)"

definition confirm_payment ::
  "string \<Rightarrow> string \<Rightarrow> datetime \<Rightarrow> db \<Rightarrow> db \<times> (error + employee_payment_status \<times> outbox)" where
  "confirm_payment i payment_data_employee_id now s =
     (if payment_data_employee_id \<noteq> i then (s, Inl HTTP_400_BAD_REQUEST)
      else
        (case scalar_one_or_none (by_employee_id i s) of
           Inl e \<Rightarrow> (s, Inl e)
         | Inr None \<Rightarrow> (s, Inl HTTP_404_NOT_FOUND)
         | Inr (Some payment_status) \<Rightarrow>
             (case salary_amount s (position_name payment_status) of
                Inl e \<Rightarrow> (s, Inl e)
              | Inr salary \<Rightarrow>
                  (let row = payment_status\<lparr>paid := True, last_payment := Some now,
                                            eps_updated_at := now\<rparr>
                   in (update_employee_payment_status row s,
                       Inr (row,
                         [(''employee-paid-queue'',
                           Employee_paid i salary (position_name row) (month now) (year now) now),
                          (''analytics-employee-status-changed-queue'',
                           Employee_status_changed i True),
                          (''user-employee-status-changed-queue'',
                           Employee_status_changed i True)]))))))"

definition dismiss_employee ::
  "string \<Rightarrow> datetime \<Rightarrow> db \<Rightarrow> db \<times> (error + outbox)" where
  "dismiss_employee i now s =
     (case scalar_one_or_none (by_employee_id i s) of
        Inl e \<Rightarrow> (s, Inl e)
      | Inr None \<Rightarrow> (s, Inl HTTP_404_NOT_FOUND)
      | Inr (Some payment_status) \<Rightarrow>
          (let row = payment_status\<lparr>paid := False, eps_updated_at := now\<rparr>
           in (update_employee_payment_status row s,
               Inr [(''analytics-employee-status-changed-queue'',
                     Employee_status_changed i False),
                    (''user-employee-status-changed-queue'',
                     Employee_status_changed i False),
                    (''employee-dismissed-queue'',
                     Employee_dismissed i now (position_name row))])))"

section \<open>Payment cycle (app/services/payment_cycle.py)\<close>

definition get_or_create_config ::
  "datetime \<Rightarrow> db \<Rightarrow> db \<times> (error + payment_cycle_config)" where
  "get_or_create_config now s =
     (case scalar_one_or_none (payment_cycle_configs s) of
        Inl e \<Rightarrow> (s, Inl e)
      | Inr (Some config) \<Rightarrow> (s, Inr config)
      | Inr None \<Rightarrow>
          (let config = \<lparr>cfg_id = payment_cycle_config_seq s, reset_day = 10,
                         last_reset_date = None, cfg_created_at = now, cfg_updated_at = now\<rparr>
           in (s\<lparr>payment_cycle_configs := payment_cycle_configs s @ [config],
                 payment_cycle_config_seq := payment_cycle_config_seq s + 1\<rparr>,
               Inr config)))"

definition update_payment_cycle_config :: "payment_cycle_config \<Rightarrow> db \<Rightarrow> db" where
  "update_payment_cycle_config config s =
     s\<lparr>payment_cycle_configs :=
         map (\<lambda>c. if cfg_id c = cfg_id config then config else c) (payment_cycle_configs s)\<rparr>"

definition update_config :: "int \<Rightarrow> datetime \<Rightarrow> db \<Rightarrow> db \<times> (error + payment_cycle_config)" where
  "update_config new_reset_day now s =
     (case get_or_create_config now s of
        (s1, Inl e) \<Rightarrow> (s1, Inl e)
      | (s1, Inr config) \<Rightarrow>
          (let config' = config\<lparr>reset_day := new_reset_day, cfg_updated_at := now\<rparr>
           in (update_payment_cycle_config config' s1, Inr config')))"

definition should_reset_payments :: "date \<Rightarrow> datetime \<Rightarrow> db \<Rightarrow> db \<times> (error + bool)" where
  "should_reset_payments today now s =
     (case get_or_create_config now s of
        (s1, Inl e) \<Rightarrow> (s1, Inl e)
      | (s1, Inr config) \<Rightarrow>
          (s1, Inr
             (case last_reset_date config of
                None \<Rightarrow> (if reset_day config \<le> day today then True else False)
              | Some last_reset \<Rightarrow>
                  (if year last_reset \<noteq> year today \<or> month last_reset \<noteq> month today
                   then (if reset_day config \<le> day today then True else False)
                   else False))))"

text \<open>
  The bulk UPDATE and the stamp on the config row are committed together by the last
  \<open>commit\<close>; an exception before it leaves the store as it was.
\<close>

definition reset_all_payment_status :: "date \<Rightarrow> datetime \<Rightarrow> db \<Rightarrow> db \<times> (error + int)" where
  "reset_all_payment_status today now s =
     (let employees_to_reset = filter paid (employee_payment_statuses s);
          employees_reset = int (length employees_to_reset);
          s1 = s\<lparr>employee_payment_statuses :=
                   map (\<lambda>r. if paid r then r\<lparr>paid := False, eps_updated_at := now\<rparr> else r)
                     (employee_payment_statuses s)\<rparr>
      in case get_or_create_config now s1 of
           (s2, Inl e) \<Rightarrow> (s, Inl e)
         | (s2, Inr config) \<Rightarrow>
             (update_payment_cycle_config
                (config\<lparr>last_reset_date := Some today, cfg_updated_at := now\<rparr>) s2,
              Inr employees_reset))"

definition check_and_auto_reset ::
  "date \<Rightarrow> datetime \<Rightarrow> db \<Rightarrow> db \<times> (error + int option)" where
  "check_and_auto_reset today now s =
     (case should_reset_payments today now s of
        (s1, Inl e) \<Rightarrow> (s1, Inl e)
      | (s1, Inr True) \<Rightarrow>
          (case reset_all_payment_status today now s1 of
             (s2, Inl e) \<Rightarrow> (s2, Inl e)
           | (s2, Inr employees_reset) \<Rightarrow> (s2, Inr (Some employees_reset)))
      | (s1, Inr False) \<Rightarrow> (s1, Inr None))"

text \<open>
  \<open>random.sample(population, k)\<close> draws \<open>k\<close> positions of the population without
  replacement and raises \<open>ValueError\<close> when \<open>k\<close> exceeds the population. The random
  source is the parameter \<open>draw\<close>: \<open>draw n k\<close> are the positions drawn, in the order
  drawn, from a population of \<open>n\<close>. \<open>sample_positions\<close> says what a draw is.
\<close>

definition sample_positions :: "nat \<Rightarrow> nat \<Rightarrow> nat list \<Rightarrow> bool" where
  "sample_positions n k picks = (length picks = k \<and> distinct picks \<and> list_all (\<lambda>i. i < n) picks)"

definition random_sample :: "(nat \<Rightarrow> nat \<Rightarrow> nat list) \<Rightarrow> 'a list \<Rightarrow> nat \<Rightarrow> error + 'a list" where
  "random_sample draw population k =
     (if length population < k then Inl ValueError
      else Inr (map (\<lambda>i. population ! i) (draw (length population) k)))"

text \<open>
  The loop of \<open>initialize_demo_payments\<close> over the selected employees: the rows of the
  session so far, the messages published so far and \<open>paid_count\<close>. A failing position
  query leaves the loop with the exception; what was published stays published.
\<close>

fun pay_selected ::
  "datetime \<Rightarrow> employee_payment_status list \<Rightarrow> db \<Rightarrow> outbox \<Rightarrow> int
     \<Rightarrow> outbox \<times> (error + db \<times> int)" where
  "pay_selected now [] s out paid_count = (out, Inr (s, paid_count))"
| "pay_selected now (employee # rest) s out paid_count =
     (case salary_amount s (position_name employee) of
        Inl e \<Rightarrow> (out, Inl e)
      | Inr salary \<Rightarrow>
          pay_selected now rest
            (update_employee_payment_status
               (employee\<lparr>paid := True, last_payment := Some now, eps_updated_at := now\<rparr>) s)
            (out @ [(''employee-paid-queue'',
                     Employee_paid (employee_id employee) salary (position_name employee)
                       (month now) (year now) now)])
            (paid_count + 1))"

definition initialize_demo_payments ::
  "(nat \<Rightarrow> nat \<Rightarrow> nat list) \<Rightarrow> datetime \<Rightarrow> db \<Rightarrow> db \<times> outbox \<times> (error + int)" where
  "initialize_demo_payments draw now s =
     (let unpaid_employees = filter (\<lambda>r. \<not> paid r) (employee_payment_statuses s)
      in if unpaid_employees = [] then (s, [], Inr 0)
         else
           (let total_employees = length unpaid_employees;
                employees_to_pay = max 1 (total_employees div 2)
            in case random_sample draw unpaid_employees employees_to_pay of
                 Inl e \<Rightarrow> (s, [], Inl e)
               | Inr selected_employees \<Rightarrow>
                   (case pay_selected now selected_employees s [] 0 of
                      (out, Inl e) \<Rightarrow> (s, out, Inl e)
                    | (out, Inr (s', paid_count)) \<Rightarrow> (s', out, Inr paid_count))))"

section \<open>Manual expenses and their ledger rows\<close>

text \<open>
  The request and service schemas of app/schemas.py with their field constraints. The
  framework validates a request body before the route runs.
\<close>

record manual_expense_create =
  mec_date :: date
  mec_category :: string
  mec_description :: "string option"
  mec_value :: real
  mec_responsible :: string

definition ManualExpenseCreate :: "manual_expense_create \<Rightarrow> bool" where
  "ManualExpenseCreate d =
     (length (mec_category d) \<le> 100 \<and> 0 < mec_value d \<and> length (mec_responsible d) \<le> 100)"

record expense_create =
  ec_description :: string
  ec_amount :: real
  ec_expense_date :: date
  ec_expense_type :: string
  ec_reference_id :: "int option"

definition ExpenseCreate :: "expense_create \<Rightarrow> error + expense_create" where
  "ExpenseCreate d =
     (if length (ec_description d) \<le> 255 \<and> 0 < ec_amount d \<and> length (ec_expense_type d) \<le> 50
      then Inr d else Inl ValidationError)"

text \<open>
  Each \<open>commit\<close> of these paths may be refused by the storage engine: the flag
  \<open>commit_ok\<close> of a commit says whether it goes through. A refused commit raises and
  leaves the store as the last successful commit left it.
\<close>

definition create_expense ::
  "bool \<Rightarrow> expense_create \<Rightarrow> datetime \<Rightarrow> db \<Rightarrow> db \<times> (error + expense)" where
  "create_expense commit_ok expense_data now s =
     (let row = \<lparr>exp_id = expenses_seq s, description = ec_description expense_data,
                  amount = ec_amount expense_data, expense_date = ec_expense_date expense_data,
                  expense_type = ec_expense_type expense_data,
                  reference_id = ec_reference_id expense_data, exp_created_at = now\<rparr>
      in if commit_ok
         then (s\<lparr>expenses := expenses s @ [row], expenses_seq := expenses_seq s + 1\<rparr>, Inr row)
         else (s, Inl DBAPIError))"

text \<open>
  The description of the ledger row of a manual expense:
  \<open>f"Gasto Manual - {category}" + (f": {description}" if description else "")\<close>.
\<close>

definition manual_description :: "manual_expense \<Rightarrow> string" where
  "manual_description manual =
     ''Gasto Manual - '' @ me_category manual @
       (case me_description manual of
          None \<Rightarrow> []
        | Some d \<Rightarrow> (if d = [] then [] else '': '' @ d))"

definition create_manual_expense_entry ::
  "bool \<Rightarrow> manual_expense \<Rightarrow> datetime \<Rightarrow> db \<Rightarrow> db \<times> (error + expense)" where
  "create_manual_expense_entry commit_ok manual now s =
     (case ExpenseCreate
             \<lparr>ec_description = manual_description manual,
              ec_amount = me_value manual, ec_expense_date = me_date manual,
              ec_expense_type = ''manual'', ec_reference_id = Some (me_id manual)\<rparr> of
        Inl e \<Rightarrow> (s, Inl e)
      | Inr expense_data \<Rightarrow> create_expense commit_ok expense_data now s)"

text \<open>
  \<open>create_employee_payment_entry\<close> is defined by the service; no route, consumer or
  service of the application calls it. The accented letter of its description prefix is
  written without the accent (one character either way).
\<close>

definition create_employee_payment_entry ::
  "bool \<Rightarrow> string \<Rightarrow> real \<Rightarrow> string option \<Rightarrow> date option \<Rightarrow> date \<Rightarrow> datetime \<Rightarrow> db
     \<Rightarrow> db \<times> (error + expense)" where
  "create_employee_payment_entry commit_ok i amt pos payment_date today now s =
     (case scalar_one_or_none (by_employee_id i s) of
        Inl e \<Rightarrow> (s, Inl e)
      | Inr payment_status \<Rightarrow>
          (case ExpenseCreate
                  \<lparr>ec_description = ''Pagamento Funcionario - '' @ i @
                      (case pos of
                         None \<Rightarrow> []
                       | Some p \<Rightarrow> (if p = [] then [] else '' ('' @ p @ '')'')),
                   ec_amount = amt,
                   ec_expense_date = (case payment_date of None \<Rightarrow> today | Some d \<Rightarrow> d),
                   ec_expense_type = ''employee_payment'',
                   ec_reference_id = map_option eps_id payment_status\<rparr> of
             Inl e \<Rightarrow> (s, Inl e)
           | Inr expense_data \<Rightarrow> create_expense commit_ok expense_data now s))"

text \<open>The routes \<open>POST /expenses/manual\<close> and \<open>DELETE /expenses/manual/{expense_id}\<close>.\<close>

text \<open>
  \<open>ManualExpense(**expense_data.model_dump())\<close> as the first commit stores it: the
  request's fields, the next id of the sequence and the creation time.
\<close>

definition new_manual_expense :: "manual_expense_create \<Rightarrow> datetime \<Rightarrow> db \<Rightarrow> manual_expense" where
  "new_manual_expense expense_data now s =
     \<lparr>me_id = manual_expenses_seq s, me_date = mec_date expense_data,
      me_category = mec_category expense_data,
      me_description = mec_description expense_data,
      me_value = mec_value expense_data,
      me_responsible = mec_responsible expense_data, me_created_at = now\<rparr>"

definition create_manual_expense ::
  "bool \<Rightarrow> bool \<Rightarrow> manual_expense_create \<Rightarrow> datetime \<Rightarrow> db
     \<Rightarrow> db \<times> (error + manual_expense \<times> outbox)" where
  "create_manual_expense commit1_ok commit2_ok expense_data now s =
     (if \<not> ManualExpenseCreate expense_data then (s, Inl ValidationError)
      else if \<not> commit1_ok then (s, Inl DBAPIError)
      else
        (let new_expense = new_manual_expense expense_data now s;
             s1 = s\<lparr>manual_expenses := manual_expenses s @ [new_expense],
                    manual_expenses_seq := manual_expenses_seq s + 1\<rparr>
         in case create_manual_expense_entry commit2_ok new_expense now s1 of
              (s2, Inl e) \<Rightarrow> (s2, Inl e)
            | (s2, Inr entry) \<Rightarrow>
                (s2, Inr (new_expense,
                   [(''finance.expense.registered'',
                     Expense_registered (me_value new_expense) (me_category new_expense)
                       (me_description new_expense) (me_date new_expense)
                       (me_responsible new_expense))]))))"

definition delete_expense_by_reference ::
  "bool \<Rightarrow> string \<Rightarrow> int \<Rightarrow> db \<Rightarrow> db \<times> (error + bool)" where
  "delete_expense_by_reference commit_ok ty ref s =
     (case scalar_one_or_none
             (filter (\<lambda>e. expense_type e = ty \<and> reference_id e = Some ref) (expenses s)) of
        Inl e \<Rightarrow> (s, Inl e)
      | Inr (Some found) \<Rightarrow>
          (if commit_ok
           then (s\<lparr>expenses := filter (\<lambda>e. exp_id e \<noteq> exp_id found) (expenses s)\<rparr>, Inr True)
           else (s, Inl DBAPIError))
      | Inr None \<Rightarrow> (s, Inr False))"

definition delete_manual_expense ::
  "bool \<Rightarrow> bool \<Rightarrow> int \<Rightarrow> datetime \<Rightarrow> db \<Rightarrow> db \<times> (error + outbox)" where
  "delete_manual_expense commit1_ok commit2_ok expense_id now s =
     (case scalar_one_or_none (filter (\<lambda>m. me_id m = expense_id) (manual_expenses s)) of
        Inl e \<Rightarrow> (s, Inl e)
      | Inr None \<Rightarrow> (s, Inl HTTP_404_NOT_FOUND)
      | Inr (Some found) \<Rightarrow>
          (case delete_expense_by_reference commit1_ok ''manual'' expense_id s of
             (s1, Inl e) \<Rightarrow> (s1, Inl e)
           | (s1, Inr removed) \<Rightarrow>
               (if commit2_ok
                then (s1\<lparr>manual_expenses :=
                           filter (\<lambda>m. me_id m \<noteq> me_id found) (manual_expenses s1)\<rparr>,
                      Inr [(''finance.expense.deleted'', Expense_deleted expense_id now)])
                else (s1, Inl DBAPIError))))"

text \<open>The ledger row \<open>create_manual_expense_entry\<close> stores for a manual expense.\<close>

definition manual_entry :: "manual_expense \<Rightarrow> datetime \<Rightarrow> db \<Rightarrow> expense" where
  "manual_entry m now s =
     \<lparr>exp_id = expenses_seq s, description = manual_description m,
      amount = me_value m, expense_date = me_date m,
      expense_type = ''manual'', reference_id = Some (me_id m), exp_created_at = now\<rparr>"

text \<open>Counting the ledger rows of one source record.\<close>

definition ledger_rows :: "string \<Rightarrow> int \<Rightarrow> db \<Rightarrow> expense list" where
  "ledger_rows ty ref s =
     filter (\<lambda>e. expense_type e = ty \<and> reference_id e = Some ref) (expenses s)"

text \<open>
  \<open>seed_demo_expenses\<close> of the startup: twelve fixed rows, added when the ledger has
  fewer than ten. Accented letters of the descriptions are written without their accent.
\<close>

definition aug :: "int \<Rightarrow> date" where
  "aug d = \<lparr>year = 2025, month = 8, day = d\<rparr>"

definition demo_expenses :: "expense_create list" where
  "demo_expenses =
     [\<lparr>ec_description = ''Compra de Halteres - Set Completo'', ec_amount = 2500,
       ec_expense_date = aug 1, ec_expense_type = ''equipment'', ec_reference_id = None\<rparr>,
      \<lparr>ec_description = ''Manutencao Esteira Ergometrica'', ec_amount = 350,
       ec_expense_date = aug 2, ec_expense_type = ''maintenance'', ec_reference_id = None\<rparr>,
      \<lparr>ec_description = ''Conta de Energia Eletrica'', ec_amount = 1200.5,
       ec_expense_date = aug 3, ec_expense_type = ''utilities'', ec_reference_id = None\<rparr>,
      \<lparr>ec_description = ''Produtos de Limpeza e Higiene'', ec_amount = 180,
       ec_expense_date = aug 3, ec_expense_type = ''cleaning'', ec_reference_id = None\<rparr>,
      \<lparr>ec_description = ''Pagamento Funcionario - Personal Trainer Joao'', ec_amount = 3500,
       ec_expense_date = aug 1, ec_expense_type = ''employee_payment'',
       ec_reference_id = Some 1001\<rparr>,
      \<lparr>ec_description = ''Pagamento Funcionario - Recepcionista Maria'', ec_amount = 2200,
       ec_expense_date = aug 1, ec_expense_type = ''employee_payment'',
       ec_reference_id = Some 1002\<rparr>,
      \<lparr>ec_description = ''Pagamento Funcionario - Instrutor Carlos'', ec_amount = 2800,
       ec_expense_date = aug 1, ec_expense_type = ''employee_payment'',
       ec_reference_id = Some 1003\<rparr>,
      \<lparr>ec_description = ''Estoque Suplementos - Whey Protein'', ec_amount = 1500,
       ec_expense_date = aug 4, ec_expense_type = ''inventory'', ec_reference_id = None\<rparr>,
      \<lparr>ec_description = ''Marketing Digital - Redes Sociais'', ec_amount = 800,
       ec_expense_date = aug 5, ec_expense_type = ''marketing'', ec_reference_id = None\<rparr>,
      \<lparr>ec_description = ''Toalhas e Uniformes - Reposicao'', ec_amount = 450,
       ec_expense_date = aug 5, ec_expense_type = ''supplies'', ec_reference_id = None\<rparr>,
      \<lparr>ec_description = ''Sistema de Som - Upgrade'', ec_amount = 1200,
       ec_expense_date = aug 6, ec_expense_type = ''equipment'', ec_reference_id = None\<rparr>,
      \<lparr>ec_description = ''Agua Mineral - Estoque Mensal'', ec_amount = 320,
       ec_expense_date = aug 6, ec_expense_type = ''supplies'', ec_reference_id = None\<rparr>]"

text \<open>The loop \<open>db.add(Expense(**expense_data))\<close>; the commit numbers the rows in order.\<close>

fun add_expenses :: "datetime \<Rightarrow> expense_create list \<Rightarrow> db \<Rightarrow> int \<Rightarrow> db \<times> int" where
  "add_expenses now [] s created_count = (s, created_count)"
| "add_expenses now (expense_data # rest) s created_count =
     add_expenses now rest
       (s\<lparr>expenses := expenses s @
             [\<lparr>exp_id = expenses_seq s, description = ec_description expense_data,
               amount = ec_amount expense_data, expense_date = ec_expense_date expense_data,
               expense_type = ec_expense_type expense_data,
               reference_id = ec_reference_id expense_data, exp_created_at = now\<rparr>],
           expenses_seq := expenses_seq s + 1\<rparr>)
       (created_count + 1)"

definition seed_demo_expenses :: "datetime \<Rightarrow> db \<Rightarrow> db \<times> int" where
  "seed_demo_expenses now s =
     (if 10 \<le> length (expenses s) then (s, 0) else add_expenses now demo_expenses s 0)"

section \<open>Invariants and the reset condition\<close>

text \<open>The invariant of the payment status records: a paid record has a payment date.\<close>

definition paid_has_last_payment :: "db \<Rightarrow> bool" where
  "paid_has_last_payment s =
     list_all (\<lambda>r. paid r \<longrightarrow> last_payment r \<noteq> None) (employee_payment_statuses s)"


text \<open>
  The amount of a payment in the words of the specification, to compare with
  \<open>salary_amount\<close>: the base salary of the position of that name, and 0 when the
  employee has no position (a null or empty name) or the catalog has none of that name.
\<close>

definition position_lookup :: "db \<Rightarrow> string option \<Rightarrow> real" where
  "position_lookup s pos =
     (if truthy_str pos
      then (case find (\<lambda>p. Some (pos_name p) = pos) (positions s) of
              None \<Rightarrow> 0
            | Some p \<Rightarrow> base_salary p)
      else 0)"

text \<open>What \<open>initialize_demo_payments\<close> and \<open>confirm_payment\<close> write into a record.\<close>

definition mark_paid :: "datetime \<Rightarrow> employee_payment_status \<Rightarrow> employee_payment_status" where
  "mark_paid now r = r\<lparr>paid := True, last_payment := Some now, eps_updated_at := now\<rparr>"

text \<open>The \<open>employee.paid\<close> message of a record, with the amount the catalog gives.\<close>

definition paid_message :: "db \<Rightarrow> datetime \<Rightarrow> employee_payment_status \<Rightarrow> string \<times> message" where
  "paid_message s now e =
     (''employee-paid-queue'',
      Employee_paid (employee_id e) (position_lookup s (position_name e)) (position_name e)
        (month now) (year now) now)"

text \<open>
  The distribution of \<open>random.sample\<close>, from its documentation ("return a k length list
  of unique elements chosen from the population sequence; used for random sampling
  without replacement"): the outcomes of a draw of \<open>k\<close> from a population of \<open>n\<close> are
  the lists of \<open>k\<close> distinct positions, each as likely as any other. The probability of
  an event is the share of the outcomes in which it holds.
\<close>

definition random_sample_outcomes :: "nat \<Rightarrow> nat \<Rightarrow> nat list set" where
  "random_sample_outcomes n k = {picks. sample_positions n k picks}"

definition probability :: "nat \<Rightarrow> nat \<Rightarrow> (nat list \<Rightarrow> bool) \<Rightarrow> real" where
  "probability n k event =
     real (card {picks \<in> random_sample_outcomes n k. event picks})
       / real (card (random_sample_outcomes n k))"

text \<open>The primary keys of the records that are paid in \<open>s'\<close> and were not in \<open>s\<close>.\<close>

definition newly_paid :: "db \<Rightarrow> db \<Rightarrow> int set" where
  "newly_paid s s' =
     eps_id ` set (filter paid (employee_payment_statuses s'))
       - eps_id ` set (filter paid (employee_payment_statuses s))"

text \<open>
  Every ledger row of kind \<open>manual\<close> refers to a manual expense whose id the sequence
  has already handed out.
\<close>

definition manual_refs_allocated :: "db \<Rightarrow> bool" where
  "manual_refs_allocated s =
     list_all (\<lambda>e. expense_type e = ''manual'' \<longrightarrow>
                 (case reference_id e of None \<Rightarrow> False | Some r \<Rightarrow> r < manual_expenses_seq s))
       (expenses s)"

text \<open>
  The primary keys of the two tables are distinct and below the next value of their
  sequences.
\<close>

definition primary_keys :: "db \<Rightarrow> bool" where
  "primary_keys s =
     (distinct (map me_id (manual_expenses s))
      \<and> list_all (\<lambda>m. me_id m < manual_expenses_seq s) (manual_expenses s)
      \<and> distinct (map exp_id (expenses s))
      \<and> list_all (\<lambda>e. exp_id e < expenses_seq s) (expenses s))"

text \<open>
  The bijection of the specification: every live manual expense has exactly one ledger
  row of kind \<open>manual\<close> that refers to it, and every ledger row of kind \<open>manual\<close>
  refers to a live manual expense.
\<close>

definition ledger_bijection :: "db \<Rightarrow> bool" where
  "ledger_bijection s =
     (list_all (\<lambda>m. length (ledger_rows ''manual'' (me_id m) s) = 1) (manual_expenses s)
      \<and> list_all (\<lambda>e. expense_type e = ''manual'' \<longrightarrow>
                    (case reference_id e of
                       None \<Rightarrow> False
                     | Some r \<Rightarrow> list_ex (\<lambda>m. me_id m = r) (manual_expenses s)))
           (expenses s))"

section \<open>Example stores\<close>

definition at_noon :: "date \<Rightarrow> datetime" where
  "at_noon d = \<lparr>year = year d, month = month d, day = day d, time_of_day = 43200\<rparr>"

definition first_row :: expense where
  "first_row =
     \<lparr>exp_id = 1, description = ''Conta de Energia'', amount = 1200, expense_date = aug 3,
      expense_type = ''utilities'', reference_id = None, exp_created_at = at_noon (aug 3)\<rparr>"

definition second_row :: expense where
  "second_row =
     \<lparr>exp_id = 2, description = ''Produtos de Limpeza'', amount = 180, expense_date = aug 3,
      expense_type = ''cleaning'', reference_id = None, exp_created_at = at_noon (aug 3)\<rparr>"

definition third_row :: expense where
  "third_row =
     \<lparr>exp_id = 3, description = ''Marketing Digital'', amount = 800, expense_date = aug 5,
      expense_type = ''marketing'', reference_id = None, exp_created_at = at_noon (aug 5)\<rparr>"

definition same_day_ledger :: db where
  "same_day_ledger = empty_db\<lparr>expenses := [first_row, second_row], expenses_seq := 3\<rparr>"

definition three_row_ledger :: db where
  "three_row_ledger =
     empty_db\<lparr>expenses := [first_row, second_row, third_row], expenses_seq := 4\<rparr>"

definition registered_fields :: "string \<Rightarrow> string \<Rightarrow> (string \<times> json) list" where
  "registered_fields i role =
     [(''id'', JString i), (''name'', JString ''Ana''), (''cpf'', JString ''00000000000''),
      (''email'', JString ''ana@fitcore.org''), (''phone'', JString ''5511''),
      (''birthDate'', JArray [JNumber 1990, JNumber 1, JNumber 2]),
      (''hireDate'', JArray [JNumber 2025, JNumber 3, JNumber 1]),
      (''role'', JString role),
      (''registrationDate'', JArray [JNumber 2025, JNumber 3, JNumber 1]),
      (''active'', JBool True)]"

definition registered_E1 :: "json option" where
  "registered_E1 = Some (JObject (registered_fields ''E1'' ''PERSONAL_TRAINER''))"

definition long_id :: string where
  "long_id = replicate 51 CHR ''E''"

definition registered_long_id :: "json option" where
  "registered_long_id = Some (JObject (registered_fields long_id ''PERSONAL_TRAINER''))"

definition role_changed_E1 :: "json option" where
  "role_changed_E1 = Some (JObject [(''employeeId'', JString ''E1''), (''role'', JString ''MANAGER'')])"

definition seeded_positions :: "position list" where
  "seeded_positions =
     [\<lparr>pos_id = 1, pos_name = ''MANAGER'', pos_description = None, base_salary = 0\<rparr>,
      \<lparr>pos_id = 2, pos_name = ''PERSONAL_TRAINER'', pos_description = None, base_salary = 3500\<rparr>,
      \<lparr>pos_id = 3, pos_name = ''RECEPTIONIST'', pos_description = None, base_salary = 1800\<rparr>,
      \<lparr>pos_id = 4, pos_name = ''CLEANER'', pos_description = None, base_salary = 1400\<rparr>]"

definition mar :: "int \<Rightarrow> date" where
  "mar d = \<lparr>year = 2025, month = 3, day = d\<rparr>"

definition status_row :: "int \<Rightarrow> string \<Rightarrow> string option \<Rightarrow> datetime option \<Rightarrow> employee_payment_status" where
  "status_row k i pos paid_at =
     \<lparr>eps_id = k, employee_id = i, position_name = pos, paid = (paid_at \<noteq> None),
      last_payment = paid_at, eps_created_at = at_noon (mar 1), eps_updated_at = at_noon (mar 1)\<rparr>"

text \<open>Three employees, none paid: a trainer, a receptionist and one without a position.\<close>

definition staff :: db where
  "staff =
     empty_db\<lparr>positions := seeded_positions,
              employee_payment_statuses :=
                [status_row 1 ''E1'' (Some ''PERSONAL_TRAINER'') None,
                 status_row 2 ''E2'' (Some ''RECEPTIONIST'') None,
                 status_row 3 ''E3'' None None],
              employee_payment_status_seq := 4\<rparr>"

definition day_10_config :: payment_cycle_config where
  "day_10_config =
     \<lparr>cfg_id = 1, reset_day = 10, last_reset_date = None,
      cfg_created_at = at_noon (mar 1), cfg_updated_at = at_noon (mar 1)\<rparr>"

text \<open>The same staff with the trainer paid on the 5th of March and a config row.\<close>

definition staff_one_paid :: db where
  "staff_one_paid =
     empty_db\<lparr>positions := seeded_positions,
              employee_payment_statuses :=
                [status_row 1 ''E1'' (Some ''PERSONAL_TRAINER'') (Some (at_noon (mar 5))),
                 status_row 2 ''E2'' (Some ''RECEPTIONIST'') None,
                 status_row 3 ''E3'' None None],
              employee_payment_status_seq := 4,
              payment_cycle_configs := [day_10_config],
              payment_cycle_config_seq := 2\<rparr>"

definition first_k :: "nat \<Rightarrow> nat \<Rightarrow> nat list" where
  "first_k n k = [0..<k]"

definition last_k :: "nat \<Rightarrow> nat \<Rightarrow> nat list" where
  "last_k n k = map (\<lambda>i. n - 1 - i) [0..<k]"

definition office_supplies :: manual_expense_create where
  "office_supplies =
     \<lparr>mec_date = mar 3, mec_category = ''Office'', mec_description = Some ''Paper'',
      mec_value = 45, mec_responsible = ''Ana''\<rparr>"

definition long_note :: manual_expense_create where
  "long_note =
     \<lparr>mec_date = mar 3, mec_category = ''Office'',
      mec_description = Some (replicate 300 CHR ''x''),
      mec_value = 45, mec_responsible = ''Ana''\<rparr>"

text \<open>The store after the office supplies were entered into the empty store at noon.\<close>

definition office_expense :: manual_expense where
  "office_expense = new_manual_expense office_supplies (at_noon (mar 3)) empty_db"

definition one_expense :: db where
  "one_expense =
     empty_db\<lparr>manual_expenses := [office_expense], manual_expenses_seq := 2,
              expenses := [manual_entry office_expense (at_noon (mar 3)) empty_db],
              expenses_seq := 2\<rparr>"

text \<open>A second manual expense, entered a day later into the store that holds the first.\<close>

definition gym_mats :: manual_expense_create where
  "gym_mats =
     \<lparr>mec_date = mar 4, mec_category = ''Equipment'', mec_description = None,
      mec_value = 300, mec_responsible = ''Bruno''\<rparr>"

definition mats_expense :: manual_expense where
  "mats_expense = new_manual_expense gym_mats (at_noon (mar 4)) one_expense"

definition two_expenses :: db where
  "two_expenses =
     one_expense\<lparr>manual_expenses := [office_expense, mats_expense], manual_expenses_seq := 3,
                 expenses := [manual_entry office_expense (at_noon (mar 3)) empty_db,
                              manual_entry mats_expense (at_noon (mar 4)) one_expense],
                 expenses_seq := 3\<rparr>"

section \<open>Properties of the ledger listing\<close>

lemma date_le_total: "date_le a b \<or> date_le b a"
  by (auto simp: date_le_def date_lt_def)

lemma date_le_trans: "date_le a b \<Longrightarrow> date_le b c \<Longrightarrow> date_le a c"
  by (auto simp: date_le_def date_lt_def)

lemma set_insert_desc: "set (insert_desc e xs) = insert e (set xs)"
  by (induction xs) auto

lemma mset_insert_desc: "mset (insert_desc e xs) = add_mset e (mset xs)"
  by (induction xs) auto

lemma sorted_insert_desc:
  "sorted_wrt date_desc xs \<Longrightarrow> sorted_wrt date_desc (insert_desc e xs)"
proof (induction xs)
  case Nil
  then show ?case by simp
next
  case (Cons x xs)
  show ?case
  proof (cases "date_le (expense_date x) (expense_date e)")
    case True
    have "\<forall>y\<in>set xs. date_desc e y"
    proof
      fix y assume "y \<in> set xs"
      with Cons.prems have "date_le (expense_date y) (expense_date x)"
        by (simp add: date_desc_def)
      with True show "date_desc e y"
        unfolding date_desc_def using date_le_trans by blast
    qed
    with True Cons.prems show ?thesis by (simp add: date_desc_def)
  next
    case False
    with date_le_total have "date_le (expense_date e) (expense_date x)" by blast
    with False Cons show ?thesis
      by (auto simp: set_insert_desc date_desc_def)
  qed
qed

lemma sorted_order_by: "sorted_wrt date_desc (order_by_expense_date_desc rows)"
  unfolding order_by_expense_date_desc_def
  by (induction rows) (simp_all add: sorted_insert_desc)

lemma mset_order_by: "mset (order_by_expense_date_desc rows) = mset rows"
  unfolding order_by_expense_date_desc_def
  by (induction rows) (simp_all add: mset_insert_desc)

lemma sorted_wrt_drop': "sorted_wrt P xs \<Longrightarrow> sorted_wrt P (drop n xs)"
  by (induction xs arbitrary: n) (auto simp: drop_Cons split: nat.splits dest: in_set_dropD)

lemma sorted_wrt_take': "sorted_wrt P xs \<Longrightarrow> sorted_wrt P (take n xs)"
  by (induction xs arbitrary: n) (auto simp: take_Cons split: nat.splits dest: in_set_takeD)

lemma mset_take_drop_subseteq: "mset (take n (drop k xs)) \<subseteq># mset xs"
proof -
  have a: "\<And>m ys. mset (take m ys) \<subseteq># mset (ys::'a list)"
    by (metis append_take_drop_id mset_append mset_subset_eq_add_left)
  have b: "\<And>m ys. mset (drop m ys) \<subseteq># mset (ys::'a list)"
    by (metis append_take_drop_id mset_append mset_subset_eq_add_right)
  show ?thesis using a b subset_mset.order_trans by blast
qed

lemma get_all_expenses_page:
  assumes "get_all_expenses scan s limit offset = Inr rows"
  shows "\<exists>n k. rows = take n (drop k (order_by_expense_date_desc (scan (expenses s))))"
proof -
  let ?ordered = "order_by_expense_date_desc (scan (expenses s))"
  have whole: "?ordered = take (length ?ordered) (drop 0 ?ordered)" by simp
  have skip: "\<And>k. drop k ?ordered = take (length ?ordered) (drop k ?ordered)" by simp
  have cut: "\<And>n. take n ?ordered = take n (drop 0 ?ordered)" by simp
  from assms consider "rows = ?ordered" | k where "rows = drop k ?ordered"
    | n where "rows = take n ?ordered" | n k where "rows = take n (drop k ?ordered)"
    by (auto simp: get_all_expenses_def Let_def split: if_splits option.splits)
  then show ?thesis
  proof cases
    case 1 with whole show ?thesis by metis
  next
    case 2 with skip show ?thesis by metis
  next
    case 3 with cut show ?thesis by metis
  next
    case 4 then show ?thesis by blast
  qed
qed

text \<open>
  Claim C9, as it stands, is refuted: two ledger rows of the same \<open>expense_date\<close>,
  inserted as \<open>first_row\<close> then \<open>second_row\<close>, are listed by the query in the opposite
  order when the engine visits the table from its newest row, which the single sort key
  \<open>expense_date DESC\<close> allows.
\<close>

theorem get_all_expenses_ties_counterexample:
  "expenses same_day_ledger = [first_row, second_row]
   \<and> expense_date first_row = expense_date second_row
   \<and> mset (rev (expenses same_day_ledger)) = mset (expenses same_day_ledger)
   \<and> get_all_expenses rev same_day_ledger None None = Inr [second_row, first_row]"
  by (simp add: same_day_ledger_def empty_db_def first_row_def second_row_def
      get_all_expenses_def order_by_expense_date_desc_def date_le_def date_lt_def aug_def)

text \<open>
  Claim C9, amended: for every ledger state, every order in which the engine visits the
  rows and every \<open>limit\<close> and \<open>offset\<close> the query accepts, the listing is a page of
  ledger rows in descending order of \<open>expense_date\<close>. The order among rows of equal
  \<open>expense_date\<close> is the engine's and is not promised.
\<close>

theorem get_all_expenses_sorted_desc:
  assumes "mset (scan (expenses s)) = mset (expenses s)"
    and "get_all_expenses scan s limit offset = Inr rows"
  shows "sorted_wrt date_desc rows \<and> mset rows \<subseteq># mset (expenses s)"
proof -
  from assms(2) obtain n k
    where rows: "rows = take n (drop k (order_by_expense_date_desc (scan (expenses s))))"
    using get_all_expenses_page by blast
  have "sorted_wrt date_desc rows"
    unfolding rows by (intro sorted_wrt_take' sorted_wrt_drop' sorted_order_by)
  moreover have "mset rows \<subseteq># mset (expenses s)"
    unfolding rows using mset_take_drop_subseteq [of n k "order_by_expense_date_desc (scan (expenses s))"]
    by (simp add: mset_order_by assms(1))
  ultimately show ?thesis by simp
qed

theorem get_all_expenses_sorted_desc_witness:
  "mset (rev (expenses three_row_ledger)) = mset (expenses three_row_ledger)
   \<and> get_all_expenses rev three_row_ledger (Some 2) (Some 1) = Inr [second_row, first_row]
   \<and> sorted_wrt date_desc [second_row, first_row]
   \<and> mset [second_row, first_row] \<subseteq># mset (expenses three_row_ledger)"
proof -
  have perm: "mset (rev (expenses three_row_ledger)) = mset (expenses three_row_ledger)"
    by simp
  have page: "get_all_expenses rev three_row_ledger (Some 2) (Some 1)
                = Inr [second_row, first_row]"
    by (simp add: three_row_ledger_def empty_db_def first_row_def second_row_def third_row_def
        get_all_expenses_def order_by_expense_date_desc_def date_le_def date_lt_def aug_def)
  from get_all_expenses_sorted_desc
         [of rev three_row_ledger "Some 2" "Some 1" "[second_row, first_row]", OF perm page]
       perm page
  show ?thesis by simp
qed

text \<open>
  Claim C10: a \<open>limit\<close> of 0 is the same as no limit and an \<open>offset\<close> of 0 the same
  as no offset; with both 0 the query answers with every row of the ledger, and so does
  the route when it is called with \<open>limit = 0\<close>.
\<close>

theorem get_all_expenses_falsy_pagination:
  assumes "mset (scan (expenses s)) = mset (expenses s)"
  shows "get_all_expenses scan s (Some 0) offset = get_all_expenses scan s None offset
     \<and> get_all_expenses scan s limit (Some 0) = get_all_expenses scan s limit None
     \<and> (\<exists>rows. get_all_expenses scan s (Some 0) (Some 0) = Inr rows
           \<and> mset rows = mset (expenses s))
     \<and> (\<exists>rows. get_all_expenses_route scan s (Some 0) None = Inr rows
           \<and> mset rows = mset (expenses s))"
  using assms
  by (simp add: get_all_expenses_def get_all_expenses_route_def Let_def mset_order_by)

theorem get_all_expenses_falsy_pagination_witness:
  "mset (rev (expenses three_row_ledger)) = mset (expenses three_row_ledger)
   \<and> get_all_expenses rev three_row_ledger (Some 0) (Some 1)
       = get_all_expenses rev three_row_ledger None (Some 1)
   \<and> get_all_expenses rev three_row_ledger (Some 2) (Some 0)
       = get_all_expenses rev three_row_ledger (Some 2) None
   \<and> (\<exists>rows. get_all_expenses rev three_row_ledger (Some 0) (Some 0) = Inr rows
         \<and> mset rows = mset (expenses three_row_ledger))
   \<and> (\<exists>rows. get_all_expenses_route rev three_row_ledger (Some 0) None = Inr rows
         \<and> mset rows = mset (expenses three_row_ledger))"
proof -
  have perm: "mset (rev (expenses three_row_ledger)) = mset (expenses three_row_ledger)"
    by simp
  from get_all_expenses_falsy_pagination
         [of rev three_row_ledger "Some 1" "Some 2", OF perm] perm
  show ?thesis by simp
qed

section \<open>Properties of the event handlers\<close>

lemma scalar_one_or_none_None: "scalar_one_or_none xs = Inr None \<longleftrightarrow> xs = []"
  by (cases xs rule: scalar_one_or_none.cases) auto

lemma scalar_one_or_none_Some: "scalar_one_or_none xs = Inr (Some x) \<longleftrightarrow> xs = [x]"
  by (cases xs rule: scalar_one_or_none.cases) auto

lemma varchar_kept: "varchar n v = Inr v \<longleftrightarrow> length v \<le> n \<and> CHR 0x00 \<notin> set v"
proof -
  have "n < length v \<Longrightarrow> take n v \<noteq> v"
    by (metis length_take min.absorb2 nat_less_le)
  then show ?thesis by (auto simp: varchar_def)
qed

lemma add_employee_payment_status_rows:
  assumes "add_employee_payment_status i pos now s = Inr s'"
  shows "\<exists>stored_id stored_pos.
           varchar 50 i = Inr stored_id \<and> nullable (varchar 100) pos = Inr stored_pos
           \<and> by_employee_id stored_id s = []
           \<and> employee_payment_statuses s' = employee_payment_statuses s @
                [\<lparr>eps_id = employee_payment_status_seq s, employee_id = stored_id,
                  position_name = stored_pos, paid = False, last_payment = None,
                  eps_created_at = now, eps_updated_at = now\<rparr>]"
  using assms
  by (auto simp: add_employee_payment_status_def split: sum.splits if_splits)

lemma add_employee_payment_status_refused:
  assumes "add_employee_payment_status i pos now s = Inl e"
  shows "add_employee_payment_status i pos now' s = Inl e"
  using assms by (auto simp: add_employee_payment_status_def split: sum.splits if_splits)

lemma add_employee_payment_status_duplicate:
  assumes "varchar 50 i = Inr stored_id" and "by_employee_id stored_id s \<noteq> []"
  shows "\<exists>e. add_employee_payment_status i pos now s = Inl e"
  using assms by (auto simp: add_employee_payment_status_def split: sum.splits)

lemma process_employee_registered_idem:
  "fst (process_employee_registered body now' (fst (process_employee_registered body now s)))
     = fst (process_employee_registered body now s)"
proof (cases "json_loads body")
  case (Inl e)
  then show ?thesis by (simp add: process_employee_registered_def)
next
  case (Inr data)
  show ?thesis
  proof (cases "EmployeeRegistered (map_employeeId data)")
    case (Inl e)
    with Inr show ?thesis by (simp add: process_employee_registered_def)
  next
    case ev: (Inr ev)
    show ?thesis
    proof (cases "scalar_one_or_none (by_employee_id (ev_id ev) s)")
      case (Inl e)
      with Inr ev show ?thesis by (simp add: process_employee_registered_def)
    next
      case found: (Inr found)
      show ?thesis
      proof (cases found)
        case (Some r)
        with Inr ev found show ?thesis by (simp add: process_employee_registered_def)
      next
        case None
        with found have absent: "by_employee_id (ev_id ev) s = []"
          by (simp add: scalar_one_or_none_None)
        show ?thesis
        proof (cases "add_employee_payment_status (ev_id ev) (Some (ev_role ev)) now s")
          case (Inl e)
          from add_employee_payment_status_refused [OF this]
          have "add_employee_payment_status (ev_id ev) (Some (ev_role ev)) now' s = Inl e" .
          with Inl Inr ev found None show ?thesis
            by (simp add: process_employee_registered_def)
        next
          case s': (Inr s')
          from add_employee_payment_status_rows [OF this] obtain stored_id stored_pos
            where stored: "varchar 50 (ev_id ev) = Inr stored_id"
              and rows: "employee_payment_statuses s' = employee_payment_statuses s @
                [\<lparr>eps_id = employee_payment_status_seq s, employee_id = stored_id,
                  position_name = stored_pos, paid = False, last_payment = None,
                  eps_created_at = now, eps_updated_at = now\<rparr>]"
            by blast
          have first: "process_employee_registered body now s
                         = (s', Created_payment_status (ev_id ev))"
            using Inr ev found None s' by (simp add: process_employee_registered_def)
          show ?thesis
          proof (cases "stored_id = ev_id ev")
            case True
            with rows absent have "\<exists>r. by_employee_id (ev_id ev) s' = [r]"
              by (simp add: by_employee_id_def)
            with Inr ev first show ?thesis
              by (auto simp add: process_employee_registered_def)
          next
            case False
            with rows absent have none: "by_employee_id (ev_id ev) s' = []"
              by (simp add: by_employee_id_def)
            from rows have "by_employee_id stored_id s' \<noteq> []"
              by (simp add: by_employee_id_def)
            from add_employee_payment_status_duplicate [OF stored this]
            obtain e where "add_employee_payment_status (ev_id ev) (Some (ev_role ev)) now' s'
                              = Inl e"
              by blast
            with Inr ev first none show ?thesis
              by (simp add: process_employee_registered_def)
          qed
        qed
      qed
    qed
  qed
qed

lemma process_employee_registered_first:
  assumes "json_loads body = Inr data"
    and "EmployeeRegistered (map_employeeId data) = Inr ev"
    and "varchar 50 (ev_id ev) = Inr (ev_id ev)"
    and "varchar 100 (ev_role ev) = Inr (ev_role ev)"
    and "by_employee_id (ev_id ev) s = []"
  shows "\<exists>s'. process_employee_registered body now s = (s', Created_payment_status (ev_id ev))
           \<and> by_employee_id (ev_id ev) s' =
               [\<lparr>eps_id = employee_payment_status_seq s, employee_id = ev_id ev,
                 position_name = Some (ev_role ev), paid = False, last_payment = None,
                 eps_created_at = now, eps_updated_at = now\<rparr>]"
proof -
  from assms(3-5) obtain s'
    where s': "add_employee_payment_status (ev_id ev) (Some (ev_role ev)) now s = Inr s'"
    by (simp add: add_employee_payment_status_def nullable_def)
  with assms(1,2,5)
  have "process_employee_registered body now s = (s', Created_payment_status (ev_id ev))"
    by (simp add: process_employee_registered_def)
  moreover from add_employee_payment_status_rows [OF s'] assms(3-5)
  have "by_employee_id (ev_id ev) s' =
               [\<lparr>eps_id = employee_payment_status_seq s, employee_id = ev_id ev,
                 position_name = Some (ev_role ev), paid = False, last_payment = None,
                 eps_created_at = now, eps_updated_at = now\<rparr>]"
    by (auto simp: by_employee_id_def nullable_def)
  ultimately show ?thesis by simp
qed

lemma process_employee_registered_again:
  assumes "json_loads body = Inr data"
    and "EmployeeRegistered (map_employeeId data) = Inr ev"
    and "by_employee_id (ev_id ev) s = [r]"
  shows "process_employee_registered body now s = (s, Employee_already_exists (ev_id ev))"
  using assms by (simp add: process_employee_registered_def)

text \<open>
  Claim C6, as it stands, is refuted: the column \<open>employee_id\<close> holds 50 characters. A
  well-formed \<open>employee.registered\<close> event whose id has 51 is refused by the store at
  each of its two applications, which both log the error, and no row exists for the id.
\<close>

theorem process_employee_registered_long_id_counterexample:
  "EmployeeRegistered (map_employeeId (map_of (rev (registered_fields long_id ''PERSONAL_TRAINER''))))
     = Inr \<lparr>ev_id = long_id, ev_role = ''PERSONAL_TRAINER''\<rparr>
   \<and> process_employee_registered registered_long_id (at_noon (mar 1)) empty_db
       = (empty_db, Error_processing DBAPIError)
   \<and> process_employee_registered registered_long_id (at_noon (mar 2))
         (fst (process_employee_registered registered_long_id (at_noon (mar 1)) empty_db))
       = (empty_db, Error_processing DBAPIError)
   \<and> by_employee_id long_id empty_db = []"
proof -
  have ev: "EmployeeRegistered (map_employeeId (map_of (rev (registered_fields long_id ''PERSONAL_TRAINER''))))
     = Inr \<lparr>ev_id = long_id, ev_role = ''PERSONAL_TRAINER''\<rparr>"
    by (simp add: EmployeeRegistered_def map_employeeId_def registered_fields_def)
  have refused: "varchar 50 long_id = Inl DBAPIError"
    by (simp add: varchar_def long_id_def)
  have once: "\<And>now. process_employee_registered registered_long_id now empty_db
       = (empty_db, Error_processing DBAPIError)"
    using ev refused
    by (simp add: process_employee_registered_def registered_long_id_def by_employee_id_def
        empty_db_def add_employee_payment_status_def)
  show ?thesis using ev once by (simp add: by_employee_id_def empty_db_def)
qed

text \<open>
  Claim C6, amended: applying the same \<open>employee.registered\<close> event twice leaves the
  store exactly as applying it once, for every message and every store. When the event
  is well-formed, the columns \<open>employee_id\<close> and \<open>position_name\<close> store its id and
  its role as they are (at most 50 and at most 100 characters, no NUL character), and
  the id has no row yet, the first application creates the one row of that id, with
  \<open>position_name = role\<close>, \<open>paid = false\<close> and \<open>last_payment = null\<close>, and the second
  application changes nothing and reports that the employee already exists, as does
  every application to a store \<open>s2\<close> that already holds a row of the id.
\<close>

theorem process_employee_registered_twice:
  "fst (process_employee_registered body now' (fst (process_employee_registered body now s)))
     = fst (process_employee_registered body now s)
   \<and> (json_loads body = Inr data \<and> EmployeeRegistered (map_employeeId data) = Inr ev
        \<and> varchar 50 (ev_id ev) = Inr (ev_id ev) \<and> varchar 100 (ev_role ev) = Inr (ev_role ev)
        \<and> by_employee_id (ev_id ev) s = []
      \<longrightarrow> (\<exists>row. by_employee_id (ev_id ev) (fst (process_employee_registered body now s)) = [row]
               \<and> position_name row = Some (ev_role ev) \<and> \<not> paid row \<and> last_payment row = None)
          \<and> snd (process_employee_registered body now s) = Created_payment_status (ev_id ev)
          \<and> snd (process_employee_registered body now'
                    (fst (process_employee_registered body now s)))
              = Employee_already_exists (ev_id ev))
   \<and> (json_loads body = Inr data \<and> EmployeeRegistered (map_employeeId data) = Inr ev
        \<and> varchar 50 (ev_id ev) = Inr (ev_id ev)
        \<and> by_employee_id (ev_id ev) s2 = [r]
      \<longrightarrow> process_employee_registered body now s2 = (s2, Employee_already_exists (ev_id ev)))"
proof (intro conjI impI)
  show "fst (process_employee_registered body now' (fst (process_employee_registered body now s)))
     = fst (process_employee_registered body now s)"
    by (rule process_employee_registered_idem)
next
  assume a: "json_loads body = Inr data \<and> EmployeeRegistered (map_employeeId data) = Inr ev
        \<and> varchar 50 (ev_id ev) = Inr (ev_id ev) \<and> varchar 100 (ev_role ev) = Inr (ev_role ev)
        \<and> by_employee_id (ev_id ev) s = []"
  then obtain s' where
    first: "process_employee_registered body now s = (s', Created_payment_status (ev_id ev))"
    and rows: "by_employee_id (ev_id ev) s' =
               [\<lparr>eps_id = employee_payment_status_seq s, employee_id = ev_id ev,
                 position_name = Some (ev_role ev), paid = False, last_payment = None,
                 eps_created_at = now, eps_updated_at = now\<rparr>]"
    using process_employee_registered_first [of body data ev s now] by blast
  from first rows
  show "\<exists>row. by_employee_id (ev_id ev) (fst (process_employee_registered body now s)) = [row]
               \<and> position_name row = Some (ev_role ev) \<and> \<not> paid row \<and> last_payment row = None"
    by simp
  from first show "snd (process_employee_registered body now s) = Created_payment_status (ev_id ev)"
    by simp
  from a rows first
  show "snd (process_employee_registered body now' (fst (process_employee_registered body now s)))
              = Employee_already_exists (ev_id ev)"
    by (simp add: process_employee_registered_again)
next
  assume "json_loads body = Inr data \<and> EmployeeRegistered (map_employeeId data) = Inr ev
        \<and> varchar 50 (ev_id ev) = Inr (ev_id ev)
        \<and> by_employee_id (ev_id ev) s2 = [r]"
  then show "process_employee_registered body now s2 = (s2, Employee_already_exists (ev_id ev))"
    by (simp add: process_employee_registered_again)
qed

theorem process_employee_registered_twice_witness:
  "json_loads registered_E1 = Inr (map_of (rev (registered_fields ''E1'' ''PERSONAL_TRAINER'')))
   \<and> EmployeeRegistered (map_employeeId (map_of (rev (registered_fields ''E1'' ''PERSONAL_TRAINER''))))
       = Inr \<lparr>ev_id = ''E1'', ev_role = ''PERSONAL_TRAINER''\<rparr>
   \<and> varchar 50 ''E1'' = Inr ''E1'' \<and> varchar 100 ''PERSONAL_TRAINER'' = Inr ''PERSONAL_TRAINER''
   \<and> by_employee_id ''E1'' empty_db = []
   \<and> (\<exists>row. by_employee_id ''E1''
               (fst (process_employee_registered registered_E1 (at_noon (mar 1)) empty_db)) = [row]
          \<and> position_name row = Some ''PERSONAL_TRAINER'' \<and> \<not> paid row \<and> last_payment row = None)
   \<and> snd (process_employee_registered registered_E1 (at_noon (mar 2))
            (fst (process_employee_registered registered_E1 (at_noon (mar 1)) empty_db)))
       = Employee_already_exists ''E1''
   \<and> by_employee_id ''E1'' staff = [status_row 1 ''E1'' (Some ''PERSONAL_TRAINER'') None]
   \<and> process_employee_registered registered_E1 (at_noon (mar 1)) staff
       = (staff, Employee_already_exists ''E1'')"
proof -
  let ?data = "map_of (rev (registered_fields ''E1'' ''PERSONAL_TRAINER''))"
  let ?ev = "\<lparr>ev_id = ''E1'', ev_role = ''PERSONAL_TRAINER''\<rparr>"
  have body: "json_loads registered_E1 = Inr ?data"
    by (simp add: registered_E1_def)
  have ev: "EmployeeRegistered (map_employeeId ?data) = Inr ?ev"
    by (simp add: EmployeeRegistered_def map_employeeId_def registered_fields_def)
  have kept: "varchar 50 ''E1'' = Inr ''E1''"
    "varchar 100 ''PERSONAL_TRAINER'' = Inr ''PERSONAL_TRAINER''"
    by (simp_all add: varchar_def)
  have absent: "by_employee_id ''E1'' empty_db = []"
    by (simp add: by_employee_id_def empty_db_def)
  have present: "by_employee_id ''E1'' staff = [status_row 1 ''E1'' (Some ''PERSONAL_TRAINER'') None]"
    by (simp add: by_employee_id_def staff_def empty_db_def status_row_def)
  from process_employee_registered_twice
         [where body = registered_E1 and data = ?data and ev = ?ev and s = empty_db
            and ?s2.0 = staff and r = "status_row 1 ''E1'' (Some ''PERSONAL_TRAINER'') None"
            and now = "at_noon (mar 1)" and now' = "at_noon (mar 2)"]
       body ev kept absent present
  show ?thesis by simp
qed

text \<open>
  Claim C7: an \<open>employee.role_changed\<close> event for an id without a payment status row
  leaves the store as it was, creates no row for the id, and ends with the handler's
  "not found" line, not with an error.
\<close>

theorem process_employee_role_changed_before_registered:
  assumes "json_loads body = Inr data"
    and "EmployeeRoleChanged (map_employeeId data) = Inr ev"
    and "by_employee_id (ev_id ev) s = []"
  shows "process_employee_role_changed body now s
           = (s, Employee_not_found_for_role_update (ev_id ev))
         \<and> by_employee_id (ev_id ev) (fst (process_employee_role_changed body now s)) = []"
  using assms by (simp add: process_employee_role_changed_def)

theorem process_employee_role_changed_before_registered_witness:
  "json_loads role_changed_E1 = Inr (map_of (rev [(''employeeId'', JString ''E1''), (''role'', JString ''MANAGER'')]))
   \<and> EmployeeRoleChanged
        (map_employeeId (map_of (rev [(''employeeId'', JString ''E1''), (''role'', JString ''MANAGER'')])))
       = Inr \<lparr>ev_id = ''E1'', ev_role = ''MANAGER''\<rparr>
   \<and> by_employee_id ''E1'' empty_db = []
   \<and> process_employee_role_changed role_changed_E1 (at_noon (mar 1)) empty_db
       = (empty_db, Employee_not_found_for_role_update ''E1'')"
proof -
  let ?data = "map_of (rev [(''employeeId'', JString ''E1''), (''role'', JString ''MANAGER'')])"
  let ?ev = "\<lparr>ev_id = ''E1'', ev_role = ''MANAGER''\<rparr>"
  have body: "json_loads role_changed_E1 = Inr ?data"
    by (simp add: role_changed_E1_def)
  have ev: "EmployeeRoleChanged (map_employeeId ?data) = Inr ?ev"
    by (simp add: EmployeeRoleChanged_def map_employeeId_def)
  have absent: "by_employee_id (ev_id ?ev) empty_db = []"
    by (simp add: by_employee_id_def empty_db_def)
  from process_employee_role_changed_before_registered
         [of role_changed_E1 ?data ?ev empty_db "at_noon (mar 1)", OF body ev absent]
       body ev absent
  show ?thesis by simp
qed

section \<open>The invariant of the payment status records\<close>

lemma paid_has_last_payment_iff: "paid_has_last_payment s = (\<forall>r\<in>set (employee_payment_statuses s). paid r \<longrightarrow> last_payment r \<noteq> None)"
  by (simp add: paid_has_last_payment_def list_all_iff)

lemma update_keeps_paid_has_last_payment:
  assumes "paid_has_last_payment s" and "paid row \<longrightarrow> last_payment row \<noteq> None"
  shows "paid_has_last_payment (update_employee_payment_status row s)"
  using assms by (auto simp: paid_has_last_payment_iff update_employee_payment_status_def)

lemma by_employee_id_found:
  assumes "scalar_one_or_none (by_employee_id i s) = Inr (Some r)"
  shows "r \<in> set (employee_payment_statuses s)"
proof -
  from assms have "by_employee_id i s = [r]" by (simp add: scalar_one_or_none_Some)
  then have "r \<in> set (by_employee_id i s)" by simp
  then show ?thesis by (simp add: by_employee_id_def)
qed

lemma registered_keeps_invariant:
  assumes "paid_has_last_payment s"
  shows "paid_has_last_payment (fst (process_employee_registered body now s))"
  using assms
  by (auto simp: process_employee_registered_def add_employee_payment_status_def paid_has_last_payment_iff
      split: sum.splits option.splits if_splits)

lemma deleted_keeps_invariant:
  assumes "paid_has_last_payment s"
  shows "paid_has_last_payment (fst (process_employee_deleted body s))"
  using assms
  by (auto simp: process_employee_deleted_def paid_has_last_payment_iff split: sum.splits option.splits)

lemma role_changed_keeps_invariant:
  assumes "paid_has_last_payment s"
  shows "paid_has_last_payment (fst (process_employee_role_changed body now s))"
proof -
  have "\<And>r i role. scalar_one_or_none (by_employee_id i s) = Inr (Some r) \<Longrightarrow>
     paid_has_last_payment (update_employee_payment_status (r\<lparr>position_name := Some role, eps_updated_at := now\<rparr>) s)"
    using assms by_employee_id_found by (intro update_keeps_paid_has_last_payment) (auto simp: paid_has_last_payment_iff)
  with assms show ?thesis
    by (auto simp: process_employee_role_changed_def split: sum.splits option.splits if_splits)
qed

lemma confirm_payment_keeps_invariant:
  assumes "paid_has_last_payment s"
  shows "paid_has_last_payment (fst (confirm_payment i j now s))"
  using assms
  by (auto simp: confirm_payment_def Let_def update_keeps_paid_has_last_payment split: sum.splits option.splits if_splits)

lemma dismiss_keeps_invariant:
  assumes "paid_has_last_payment s"
  shows "paid_has_last_payment (fst (dismiss_employee i now s))"
  using assms
  by (auto simp: dismiss_employee_def Let_def update_keeps_paid_has_last_payment split: sum.splits option.splits if_splits)

lemma get_or_create_config_rows:
  "employee_payment_statuses (fst (get_or_create_config now s)) = employee_payment_statuses s"
  by (auto simp: get_or_create_config_def Let_def split: sum.splits option.splits)

lemma reset_keeps_invariant:
  assumes "paid_has_last_payment s"
  shows "paid_has_last_payment (fst (reset_all_payment_status today now s))"
proof (cases "get_or_create_config now (s\<lparr>employee_payment_statuses :=
                   map (\<lambda>r. if paid r then r\<lparr>paid := False, eps_updated_at := now\<rparr> else r)
                     (employee_payment_statuses s)\<rparr>)")
  case (Pair s2 res)
  with get_or_create_config_rows [of now "s\<lparr>employee_payment_statuses :=
                   map (\<lambda>r. if paid r then r\<lparr>paid := False, eps_updated_at := now\<rparr> else r)
                     (employee_payment_statuses s)\<rparr>"]
  have rows: "employee_payment_statuses s2 = map (\<lambda>r. if paid r then r\<lparr>paid := False, eps_updated_at := now\<rparr> else r)
                     (employee_payment_statuses s)" by simp
  show ?thesis
  proof (cases res)
    case (Inl e)
    with Pair assms show ?thesis by (simp add: reset_all_payment_status_def Let_def)
  next
    case (Inr config)
    with Pair rows show ?thesis
      by (auto simp: reset_all_payment_status_def Let_def paid_has_last_payment_iff update_payment_cycle_config_def)
  qed
qed

lemma should_reset_keeps_invariant:
  assumes "paid_has_last_payment s"
  shows "paid_has_last_payment (fst (should_reset_payments today now s))"
proof -
  have "employee_payment_statuses (fst (should_reset_payments today now s)) = employee_payment_statuses s"
    using get_or_create_config_rows [of now s]
    by (cases "get_or_create_config now s") (auto simp: should_reset_payments_def split: sum.splits)
  with assms show ?thesis by (simp add: paid_has_last_payment_iff)
qed

lemma check_and_auto_reset_keeps_invariant:
  assumes "paid_has_last_payment s"
  shows "paid_has_last_payment (fst (check_and_auto_reset today now s))"
proof (cases "should_reset_payments today now s")
  case (Pair s1 res)
  with should_reset_keeps_invariant [OF assms, of today now] have s1: "paid_has_last_payment s1" by simp
  show ?thesis
  proof (cases res)
    case (Inl e)
    with Pair s1 show ?thesis by (simp add: check_and_auto_reset_def)
  next
    case (Inr b)
    show ?thesis
    proof (cases b)
      case True
      with Pair Inr reset_keeps_invariant [OF s1, of today now] show ?thesis
        by (cases "reset_all_payment_status today now s1")
           (auto simp: check_and_auto_reset_def split: sum.splits)
    next
      case False
      with Pair Inr s1 show ?thesis by (simp add: check_and_auto_reset_def)
    qed
  qed
qed

lemma pay_selected_keeps_invariant:
  assumes "paid_has_last_payment s" and "pay_selected now sel s out n = (out', Inr (s', n'))"
  shows "paid_has_last_payment s'"
  using assms
proof (induction sel arbitrary: s out n)
  case Nil
  then show ?case by simp
next
  case (Cons e rest)
  from Cons.prems(2) obtain salary where
    rest: "pay_selected now rest
            (update_employee_payment_status
               (e\<lparr>paid := True, last_payment := Some now, eps_updated_at := now\<rparr>) s)
            (out @ [(''employee-paid-queue'',
                     Employee_paid (employee_id e) salary (position_name e)
                       (month now) (year now) now)])
            (n + 1) = (out', Inr (s', n'))"
    by (auto split: sum.splits)
  have "paid_has_last_payment (update_employee_payment_status
               (e\<lparr>paid := True, last_payment := Some now, eps_updated_at := now\<rparr>) s)"
    using Cons.prems(1) by (intro update_keeps_paid_has_last_payment) simp_all
  from Cons.IH [OF this rest] show ?case .
qed

lemma demo_keeps_invariant:
  assumes "paid_has_last_payment s"
  shows "paid_has_last_payment (fst (initialize_demo_payments draw now s))"
proof -
  have "\<And>sel out s' n. pay_selected now sel s [] 0 = (out, Inr (s', n)) \<Longrightarrow> paid_has_last_payment s'"
    using assms pay_selected_keeps_invariant by blast
  with assms show ?thesis
    by (auto simp: initialize_demo_payments_def Let_def split: sum.splits prod.splits)
qed

lemma paid_has_last_payment_empty: "paid_has_last_payment empty_db"
  by (simp add: paid_has_last_payment_def empty_db_def)

text \<open>
  Claim C5: every operation that writes payment status records keeps the invariant that
  a paid record has a payment date: registration, deletion, role change, payment
  confirmation, dismissal, the cycle reset (manual and automatic) and the demo
  initialization. The empty store has it (\<open>paid_has_last_payment_empty\<close>), so every
  record the operations can reach has it.
\<close>

theorem paid_has_last_payment_preserved:
  assumes "paid_has_last_payment s"
  shows "paid_has_last_payment (fst (process_employee_registered registered now s))
       \<and> paid_has_last_payment (fst (process_employee_deleted deleted s))
       \<and> paid_has_last_payment (fst (process_employee_role_changed role_changed now s))
       \<and> paid_has_last_payment (fst (confirm_payment i j now s))
       \<and> paid_has_last_payment (fst (dismiss_employee i now s))
       \<and> paid_has_last_payment (fst (reset_all_payment_status today now s))
       \<and> paid_has_last_payment (fst (check_and_auto_reset today now s))
       \<and> paid_has_last_payment (fst (initialize_demo_payments draw now s))"
  using assms
  by (intro conjI registered_keeps_invariant deleted_keeps_invariant
      role_changed_keeps_invariant confirm_payment_keeps_invariant dismiss_keeps_invariant
      reset_keeps_invariant check_and_auto_reset_keeps_invariant demo_keeps_invariant)

theorem paid_has_last_payment_preserved_witness:
  "paid_has_last_payment staff_one_paid
   \<and> paid_has_last_payment (fst (process_employee_registered registered_E1 (at_noon (mar 12)) staff_one_paid))
   \<and> paid_has_last_payment (fst (process_employee_deleted role_changed_E1 staff_one_paid))
   \<and> paid_has_last_payment (fst (process_employee_role_changed role_changed_E1 (at_noon (mar 12)) staff_one_paid))
   \<and> paid_has_last_payment (fst (confirm_payment ''E2'' ''E2'' (at_noon (mar 12)) staff_one_paid))
   \<and> paid_has_last_payment (fst (dismiss_employee ''E2'' (at_noon (mar 12)) staff_one_paid))
   \<and> paid_has_last_payment (fst (reset_all_payment_status (mar 12) (at_noon (mar 12)) staff_one_paid))
   \<and> paid_has_last_payment (fst (check_and_auto_reset (mar 12) (at_noon (mar 12)) staff_one_paid))
   \<and> paid_has_last_payment (fst (initialize_demo_payments first_k (at_noon (mar 12)) staff_one_paid))"
proof -
  have inv: "paid_has_last_payment staff_one_paid"
    by (simp add: paid_has_last_payment_def staff_one_paid_def empty_db_def status_row_def)
  from paid_has_last_payment_preserved
         [OF inv, where registered = registered_E1 and deleted = role_changed_E1
            and role_changed = role_changed_E1 and now = "at_noon (mar 12)"
            and i = "''E2''" and j = "''E2''" and today = "mar 12" and draw = first_k] inv
  show ?thesis by simp
qed

section \<open>The payment cycle\<close>











section \<open>The demo initialization\<close>

lemma filter_key_le_1:
  assumes "distinct (map f xs)"
  shows "length (filter (\<lambda>x. f x = v) xs) \<le> 1"
  using assms
proof (induction xs)
  case Nil then show ?case by simp
next
  case (Cons x xs)
  show ?case
  proof (cases "f x = v")
    case True
    have "v \<notin> f ` set xs" using Cons.prems True by auto
    then have "\<forall>y\<in>set xs. f y \<noteq> v" by blast
    then have "filter (\<lambda>x. f x = v) xs = []" by (simp add: filter_empty_conv)
    with True show ?thesis by simp
  next
    case False
    with Cons show ?thesis by simp
  qed
qed

lemma find_filter: "find P xs = (case filter P xs of [] \<Rightarrow> None | x # _ \<Rightarrow> Some x)"
  by (induction xs) auto

lemma salary_amount_lookup:
  assumes "distinct (map pos_name (positions s))"
  shows "salary_amount s pos = Inr (position_lookup s pos)"
proof (cases pos)
  case None
  then show ?thesis by (simp add: salary_amount_def position_lookup_def)
next
  case (Some n)
  let ?m = "filter (\<lambda>p. Some (pos_name p) = pos) (positions s)"
  from Some have "?m = filter (\<lambda>p. pos_name p = n) (positions s)" by auto
  with filter_key_le_1 [OF assms, of n] have "length ?m \<le> 1" by simp
  then consider "?m = []" | p where "?m = [p]"
    by (cases ?m) (auto simp: Suc_le_eq)
  then show ?thesis
  proof cases
    case 1
    then show ?thesis
      by (simp add: salary_amount_def position_lookup_def find_filter)
  next
    case 2
    then show ?thesis
      by (simp add: salary_amount_def position_lookup_def find_filter)
  qed
qed

lemma positions_update [simp]:
  "positions (update_employee_payment_status row s) = positions s"
  by (simp add: update_employee_payment_status_def)

lemma salary_amount_update [simp]:
  "salary_amount (update_employee_payment_status row s) pos = salary_amount s pos"
  by (simp add: salary_amount_def)

lemma position_lookup_update [simp]:
  "position_lookup (update_employee_payment_status row s) pos = position_lookup s pos"
  by (simp add: position_lookup_def)

lemma pay_selected_run:
  assumes "distinct (map pos_name (positions s))"
  shows "pay_selected now sel s out n =
           (out @ map (paid_message s now) sel,
            Inr (foldl (\<lambda>s e. update_employee_payment_status (mark_paid now e) s) s sel,
                 n + int (length sel)))"
  using assms
proof (induction sel arbitrary: s out n)
  case Nil
  then show ?case by simp
next
  case (Cons e rest)
  let ?s1 = "update_employee_payment_status (mark_paid now e) s"
  from Cons.prems have d1: "distinct (map pos_name (positions ?s1))" by simp
  have msg: "paid_message ?s1 now = paid_message s now"
    by (rule ext) (simp add: paid_message_def)
  have step: "pay_selected now (e # rest) s out n =
          pay_selected now rest ?s1 (out @ [paid_message s now e]) (n + 1)"
    using salary_amount_lookup [OF Cons.prems]
    by (simp add: mark_paid_def paid_message_def)
  show ?case
    unfolding step Cons.IH [OF d1] msg by simp
qed

lemma fold_rows:
  assumes "distinct (map eps_id rows0)" and "set sel \<subseteq> set rows0" and "A \<subseteq> set rows0"
    and "employee_payment_statuses s = map (\<lambda>r. if r \<in> A then mark_paid now r else r) rows0"
  shows "employee_payment_statuses
           (foldl (\<lambda>s e. update_employee_payment_status (mark_paid now e) s) s sel)
         = map (\<lambda>r. if r \<in> A \<union> set sel then mark_paid now r else r) rows0"
  using assms(2-4)
proof (induction sel arbitrary: s A)
  case Nil
  then show ?case by simp
next
  case (Cons e rest)
  let ?s1 = "update_employee_payment_status (mark_paid now e) s"
  from Cons.prems have e: "e \<in> set rows0" by simp
  have key: "\<And>r. r \<in> set rows0 \<Longrightarrow> (eps_id r = eps_id e) = (r = e)"
    using assms(1) e by (meson distinct_map inj_on_def)
  have "employee_payment_statuses ?s1
          = map (\<lambda>r. if r \<in> insert e A then mark_paid now r else r) rows0"
    using Cons.prems(3) key
    by (auto simp: update_employee_payment_status_def mark_paid_def)
  moreover from Cons.prems e have "set rest \<subseteq> set rows0" "insert e A \<subseteq> set rows0" by auto
  ultimately have "employee_payment_statuses
           (foldl (\<lambda>s e. update_employee_payment_status (mark_paid now e) s) ?s1 rest)
         = map (\<lambda>r. if r \<in> insert e A \<union> set rest then mark_paid now r else r) rows0"
    by (intro Cons.IH)
  then show ?case by simp
qed

lemma count_marked:
  assumes "distinct rows0" and "S \<subseteq> set rows0" and "\<forall>r\<in>S. \<not> paid r"
  shows "length (filter paid (map (\<lambda>r. if r \<in> S then mark_paid now r else r) rows0))
           = length (filter paid rows0) + card S"
proof -
  have "filter paid (map (\<lambda>r. if r \<in> S then mark_paid now r else r) rows0)
          = map (\<lambda>r. if r \<in> S then mark_paid now r else r) (filter (\<lambda>r. paid r \<or> r \<in> S) rows0)"
    by (induction rows0) (auto simp: mark_paid_def)
  then have "length (filter paid (map (\<lambda>r. if r \<in> S then mark_paid now r else r) rows0))
          = length (filter (\<lambda>r. paid r \<or> r \<in> S) rows0)" by simp
  also have "\<dots> = card ({r. paid r \<or> r \<in> S} \<inter> set rows0)"
    using assms(1) by (simp add: distinct_length_filter)
  also have "{r. paid r \<or> r \<in> S} \<inter> set rows0 = ({r. paid r} \<inter> set rows0) \<union> S"
    using assms(2) by auto
  also have "card (({r. paid r} \<inter> set rows0) \<union> S) = card ({r. paid r} \<inter> set rows0) + card S"
    using assms(2,3) by (intro card_Un_disjoint) (auto intro: finite_subset)
  also have "card ({r. paid r} \<inter> set rows0) = length (filter paid rows0)"
    using assms(1) by (simp add: distinct_length_filter)
  finally show ?thesis .
qed


lemma distinct_map_nth:
  assumes "distinct xs" and "distinct picks" and "list_all (\<lambda>i. i < length xs) picks"
  shows "distinct (map (\<lambda>i. xs ! i) picks)"
proof -
  have "inj_on (\<lambda>i. xs ! i) (set picks)"
    using assms(1,3) by (auto simp: inj_on_def list_all_iff nth_eq_iff_index_eq)
  with assms(2) show ?thesis by (simp add: distinct_map)
qed

lemma initialize_demo_payments_run:
  assumes ids: "distinct (map eps_id (employee_payment_statuses s))"
    and names: "distinct (map pos_name (positions s))"
    and unpaid: "unpaid = filter (\<lambda>r. \<not> paid r) (employee_payment_statuses s)"
    and some: "unpaid \<noteq> []"
    and k: "k = max 1 (length unpaid div 2)"
    and draw: "sample_positions (length unpaid) k (draw (length unpaid) k)"
    and selected: "selected = map (\<lambda>i. unpaid ! i) (draw (length unpaid) k)"
  shows "\<exists>s'. initialize_demo_payments draw now s
                 = (s', map (paid_message s now) selected, Inr (int k))
           \<and> employee_payment_statuses s'
               = map (\<lambda>r. if r \<in> set selected then mark_paid now r else r)
                   (employee_payment_statuses s)
           \<and> length (filter paid (employee_payment_statuses s'))
               = length (filter paid (employee_payment_statuses s)) + k
           \<and> set selected \<subseteq> set unpaid \<and> distinct selected \<and> length selected = k"
proof -
  let ?rows = "employee_payment_statuses s"
  let ?s' = "foldl (\<lambda>s e. update_employee_payment_status (mark_paid now e) s) s selected"
  from some k have fits: "\<not> length unpaid < k"
    by (cases unpaid) (auto simp: max_def)
  from draw have len: "length selected = k" and dpicks: "distinct (draw (length unpaid) k)"
    and bound: "list_all (\<lambda>i. i < length unpaid) (draw (length unpaid) k)"
    by (simp_all add: sample_positions_def selected)
  from ids have drows: "distinct ?rows" by (simp add: distinct_map)
  then have dunpaid: "distinct unpaid" by (simp add: unpaid)
  from distinct_map_nth [OF dunpaid dpicks bound] have dsel: "distinct selected"
    by (simp add: selected)
  from bound have sub: "set selected \<subseteq> set unpaid"
    by (auto simp: selected list_all_iff)
  then have sub_rows: "set selected \<subseteq> set ?rows" and np: "\<forall>r\<in>set selected. \<not> paid r"
    by (auto simp: unpaid)
  have sample: "random_sample draw unpaid k = Inr selected"
    using fits by (simp add: random_sample_def selected)
  have run: "initialize_demo_payments draw now s
               = (?s', map (paid_message s now) selected, Inr (int k))"
    using some sample [unfolded k] pay_selected_run [OF names, of now selected "[]" 0] len
    by (simp add: initialize_demo_payments_def Let_def unpaid [symmetric])
  have rows: "employee_payment_statuses ?s'
                = map (\<lambda>r. if r \<in> set selected then mark_paid now r else r) ?rows"
    using fold_rows [OF ids sub_rows, of "{}" s now] by simp
  have count: "length (filter paid (employee_payment_statuses ?s'))
                 = length (filter paid ?rows) + k"
    unfolding rows using count_marked [OF drows sub_rows np, of now] dsel len
    by (simp add: distinct_card)
  from run rows count sub dsel len show ?thesis by blast
qed

lemma choose_times_fact:
  assumes "k \<le> n"
  shows "(n choose k) * fact k = \<Prod>{n - k + 1..n}"
proof -
  have "fact k * fact (n - k) * (n choose k) = (fact n :: nat)"
    using assms by (rule binomial_fact_lemma)
  moreover have "(fact n :: nat) = fact (n - k) * \<Prod>{n - k + 1..n}"
    using fact_div_fact [of "n - k" n] fact_dvd [of "n - k" n, where ?'a = nat]
    by (metis diff_le_self dvd_mult_div_cancel)
  ultimately have "fact (n - k) * ((n choose k) * fact k) = fact (n - k) * \<Prod>{n - k + 1..n}"
    by (simp add: mult_ac)
  then show ?thesis by simp
qed

lemma card_outcomes:
  assumes "k \<le> n"
  shows "card (random_sample_outcomes n k) = \<Prod>{n - k + 1..n}"
proof -
  have "random_sample_outcomes n k = {xs. length xs = k \<and> distinct xs \<and> set xs \<subseteq> {..<n}}"
    by (auto simp: random_sample_outcomes_def sample_positions_def list_all_iff)
  with card_lists_distinct_length_eq [of "{..<n}" k] assms show ?thesis by simp
qed

lemma card_orderings:
  assumes "finite J" and "card J = k"
  shows "card {xs. length xs = k \<and> distinct xs \<and> set xs \<subseteq> J} = fact k"
proof -
  from card_lists_distinct_length_eq [OF assms(1), of k] assms(2)
  have "card {xs. length xs = k \<and> distinct xs \<and> set xs \<subseteq> J} = \<Prod>{1..k}" by simp
  then show ?thesis by (simp add: fact_prod)
qed

lemma card_outcomes_with_image:
  assumes inj: "inj_on f {..<n}" and sub: "I \<subseteq> f ` {..<n}" and card: "card I = k"
  shows "card {picks \<in> random_sample_outcomes n k. f ` set picks = I} = fact k"
proof -
  let ?J = "{i. i < n \<and> f i \<in> I}"
  have fin: "finite ?J" by simp
  have img: "f ` ?J = I" using sub by auto
  have "inj_on f ?J" using inj by (rule inj_on_subset) auto
  then have cJ: "card ?J = k" using img card by (metis card_image)
  have "{picks \<in> random_sample_outcomes n k. f ` set picks = I}
          = {xs. length xs = k \<and> distinct xs \<and> set xs \<subseteq> ?J}"
  proof (intro set_eqI iffI)
    fix xs assume "xs \<in> {picks \<in> random_sample_outcomes n k. f ` set picks = I}"
    then show "xs \<in> {xs. length xs = k \<and> distinct xs \<and> set xs \<subseteq> ?J}"
      by (auto simp: random_sample_outcomes_def sample_positions_def list_all_iff)
  next
    fix xs assume "xs \<in> {xs. length xs = k \<and> distinct xs \<and> set xs \<subseteq> ?J}"
    then have l: "length xs = k" and d: "distinct xs" and s: "set xs \<subseteq> ?J" by simp_all
    from d l have "card (set xs) = card ?J" by (simp add: distinct_card cJ)
    with s fin have "set xs = ?J" by (simp add: card_subset_eq)
    with img l d s show "xs \<in> {picks \<in> random_sample_outcomes n k. f ` set picks = I}"
      by (auto simp: random_sample_outcomes_def sample_positions_def list_all_iff)
  qed
  with card_orderings [OF fin cJ] show ?thesis by simp
qed

lemma probability_of_subset:
  assumes "k \<le> n" and "inj_on f {..<n}" and "I \<subseteq> f ` {..<n}" and "card I = k"
  shows "probability n k (\<lambda>picks. f ` set picks = I) = 1 / real (n choose k)"
proof -
  have "real (fact k) / real (\<Prod>{n - k + 1..n}) = 1 / real (n choose k)"
    unfolding choose_times_fact [OF assms(1), symmetric] by simp
  then show ?thesis
    by (simp add: probability_def card_outcomes [OF assms(1)]
        card_outcomes_with_image [OF assms(2-4)])
qed

lemma newly_paid_marked:
  assumes ids: "distinct (map eps_id rows)"
    and sub: "S \<subseteq> set rows" and np: "\<forall>r\<in>S. \<not> paid r"
    and s: "employee_payment_statuses s = rows"
    and s': "employee_payment_statuses s' = map (\<lambda>r. if r \<in> S then mark_paid now r else r) rows"
  shows "newly_paid s s' = eps_id ` S"
proof -
  let ?P = "eps_id ` set (filter paid rows)"
  have after: "eps_id ` set (filter paid (employee_payment_statuses s')) = eps_id ` S \<union> ?P"
  proof (intro set_eqI iffI)
    fix x assume "x \<in> eps_id ` set (filter paid (employee_payment_statuses s'))"
    then obtain r where r: "r \<in> set rows"
      and p: "paid (if r \<in> S then mark_paid now r else r)"
      and x: "x = eps_id (if r \<in> S then mark_paid now r else r)"
      by (auto simp: s')
    then show "x \<in> eps_id ` S \<union> ?P"
      by (cases "r \<in> S") (auto simp: mark_paid_def)
  next
    fix x assume "x \<in> eps_id ` S \<union> ?P"
    then consider r where "r \<in> S" "x = eps_id r" | r where "r \<in> set rows" "paid r" "x = eps_id r"
      by auto
    then show "x \<in> eps_id ` set (filter paid (employee_payment_statuses s'))"
    proof cases
      case 1
      with sub have "r \<in> set rows" by auto
      with 1 have "mark_paid now r \<in> set (employee_payment_statuses s')"
        by (auto simp: s' intro!: image_eqI [of _ _ r])
      moreover have "paid (mark_paid now r)" "eps_id (mark_paid now r) = x"
        using 1 by (simp_all add: mark_paid_def)
      ultimately show ?thesis by (auto intro!: image_eqI [of _ _ "mark_paid now r"])
    next
      case 2
      with np have "r \<notin> S" by auto
      with 2 have "r \<in> set (employee_payment_statuses s')"
        by (auto simp: s' intro!: image_eqI [of _ _ r])
      with 2 show ?thesis by (auto intro!: image_eqI [of _ _ r])
    qed
  qed
  have disjoint: "eps_id ` S \<inter> ?P = {}"
  proof (rule ccontr)
    assume "eps_id ` S \<inter> ?P \<noteq> {}"
    then obtain r p where "r \<in> S" "p \<in> set rows" "paid p" "eps_id r = eps_id p" by auto
    with sub ids have "r = p" by (meson distinct_map inj_on_def subsetD)
    with \<open>r \<in> S\<close> \<open>paid p\<close> np show False by auto
  qed
  show ?thesis
    unfolding newly_paid_def after s using disjoint by auto
qed

lemma probability_cong:
  assumes "\<And>picks. picks \<in> random_sample_outcomes n k \<Longrightarrow> E picks = E' picks"
  shows "probability n k E = probability n k E'"
proof -
  have "{picks \<in> random_sample_outcomes n k. E picks} = {picks \<in> random_sample_outcomes n k. E' picks}"
    using assms by auto
  then show ?thesis by (simp add: probability_def)
qed

text \<open>
  Claim C8, as it stands, is refuted: of three unpaid employees the demo initialization
  pays \<open>max(1, 3 // 2) = 1\<close>, not the 2 that half of 3 rounded up would be.
\<close>

theorem initialize_demo_payments_rounds_down_counterexample:
  "length (filter (\<lambda>r. \<not> paid r) (employee_payment_statuses staff)) = 3
   \<and> sample_positions 3 1 (first_k 3 1)
   \<and> snd (snd (initialize_demo_payments first_k (at_noon (mar 1)) staff)) = Inr 1
   \<and> length (filter paid (employee_payment_statuses
               (fst (initialize_demo_payments first_k (at_noon (mar 1)) staff)))) = 1
   \<and> max 1 (nat \<lceil>3 / 2 :: real\<rceil>) = (2::nat)"
  apply (intro conjI)
      apply (simp add: staff_def empty_db_def status_row_def)
     apply (simp add: sample_positions_def first_k_def)
    apply (simp add: initialize_demo_payments_def Let_def staff_def empty_db_def status_row_def
      random_sample_def first_k_def salary_amount_def seeded_positions_def
      update_employee_payment_status_def)
   apply (simp add: initialize_demo_payments_def Let_def staff_def empty_db_def status_row_def
      random_sample_def first_k_def salary_amount_def seeded_positions_def
      update_employee_payment_status_def)
  apply (simp add: ceiling_divide_eq_div)
  done

text \<open>
  Claim C8, amended: for every non-empty set of \<open>n\<close> unpaid employees the demo
  initialization marks exactly \<open>max(1, floor(n/2))\<close> of them paid (half, rounded down, at
  least one), chosen uniformly at random: the records at the positions \<open>random.sample\<close>
  draws, and under its distribution every set of that many unpaid employees is as likely
  to be the one marked as any other, with probability 1 over the number of such sets.
  Each marked record is stamped with the payment date and has its \<open>employee.paid\<close>
  message, whose amount is the base salary of the record's position and 0 when the
  position is missing. The records have distinct primary keys and the catalog distinct
  names, as the tables declare.
\<close>

theorem initialize_demo_payments_half:
  assumes ids: "distinct (map eps_id (employee_payment_statuses s))"
    and names: "distinct (map pos_name (positions s))"
    and unpaid: "unpaid = filter (\<lambda>r. \<not> paid r) (employee_payment_statuses s)"
    and some: "unpaid \<noteq> []"
    and k: "k = max 1 (length unpaid div 2)"
    and draw: "sample_positions (length unpaid) k (draw (length unpaid) k)"
    and selected: "selected = map (\<lambda>i. unpaid ! i) (draw (length unpaid) k)"
  shows "(\<exists>s'. initialize_demo_payments draw now s
                 = (s', map (paid_message s now) selected, Inr (int k))
           \<and> employee_payment_statuses s'
               = map (\<lambda>r. if r \<in> set selected then mark_paid now r else r)
                   (employee_payment_statuses s)
           \<and> length (filter paid (employee_payment_statuses s'))
               = length (filter paid (employee_payment_statuses s)) + k
           \<and> newly_paid s s' = eps_id ` set selected
           \<and> set selected \<subseteq> set unpaid \<and> distinct selected \<and> length selected = k)
       \<and> (chosen \<subseteq> eps_id ` set unpaid \<and> card chosen = k
            \<longrightarrow> probability (length unpaid) k
                  (\<lambda>picks. newly_paid s (fst (initialize_demo_payments (\<lambda>n k. picks) now s))
                             = chosen)
                = 1 / real (length unpaid choose k))"
proof (intro conjI impI)
  from initialize_demo_payments_run
         [where draw = draw and now = now, OF ids names unpaid some k draw selected]
  obtain s' where run: "initialize_demo_payments draw now s
                 = (s', map (paid_message s now) selected, Inr (int k))"
    and rows: "employee_payment_statuses s'
               = map (\<lambda>r. if r \<in> set selected then mark_paid now r else r)
                   (employee_payment_statuses s)"
    and count: "length (filter paid (employee_payment_statuses s'))
               = length (filter paid (employee_payment_statuses s)) + k"
    and sel: "set selected \<subseteq> set unpaid" "distinct selected" "length selected = k"
    by blast
  from sel(1) have "set selected \<subseteq> set (employee_payment_statuses s)"
    and "\<forall>r\<in>set selected. \<not> paid r"
    by (auto simp: unpaid)
  from newly_paid_marked [OF ids this refl rows]
  have "newly_paid s s' = eps_id ` set selected" .
  with run rows count sel
  show "\<exists>s'. initialize_demo_payments draw now s
                 = (s', map (paid_message s now) selected, Inr (int k))
           \<and> employee_payment_statuses s'
               = map (\<lambda>r. if r \<in> set selected then mark_paid now r else r)
                   (employee_payment_statuses s)
           \<and> length (filter paid (employee_payment_statuses s'))
               = length (filter paid (employee_payment_statuses s)) + k
           \<and> newly_paid s s' = eps_id ` set selected
           \<and> set selected \<subseteq> set unpaid \<and> distinct selected \<and> length selected = k"
    by blast
next
  assume chosen: "chosen \<subseteq> eps_id ` set unpaid \<and> card chosen = k"
  let ?n = "length unpaid"
  let ?f = "\<lambda>i. eps_id (unpaid ! i)"
  from some k have kn: "k \<le> ?n" by (cases unpaid) (auto simp: max_def)
  have "distinct (map eps_id unpaid)"
    using ids by (simp add: unpaid distinct_map_filter)
  then have inj: "inj_on ?f {..<?n}"
    by (auto simp: inj_on_def distinct_conv_nth)
  have "set unpaid = (\<lambda>i. unpaid ! i) ` {..<?n}"
    by (auto simp: set_conv_nth)
  then have img: "eps_id ` set unpaid = ?f ` {..<?n}" by (simp add: image_image)
  have event: "newly_paid s (fst (initialize_demo_payments (\<lambda>n k. picks) now s))
                 = ?f ` set picks"
    if "picks \<in> random_sample_outcomes ?n k" for picks
  proof -
    let ?sel = "map (\<lambda>i. unpaid ! i) picks"
    from that have draw': "sample_positions ?n k ((\<lambda>n k. picks) ?n k)"
      by (simp add: random_sample_outcomes_def)
    have sel': "?sel = map (\<lambda>i. unpaid ! i) ((\<lambda>n k. picks) ?n k)" by simp
    from initialize_demo_payments_run
           [where draw = "\<lambda>n k. picks" and now = now and selected = ?sel,
            OF ids names unpaid some k draw' sel']
    obtain s' where run: "initialize_demo_payments (\<lambda>n k. picks) now s
                 = (s', map (paid_message s now) ?sel, Inr (int k))"
      and rows: "employee_payment_statuses s'
               = map (\<lambda>r. if r \<in> set ?sel then mark_paid now r else r)
                   (employee_payment_statuses s)"
      and sel: "set ?sel \<subseteq> set unpaid"
      by auto
    from sel have "set ?sel \<subseteq> set (employee_payment_statuses s)"
      and "\<forall>r\<in>set ?sel. \<not> paid r"
      by (auto simp: unpaid)
    from newly_paid_marked [OF ids this refl rows]
    have "newly_paid s s' = eps_id ` set ?sel" .
    with run show ?thesis by (simp add: image_image)
  qed
  have "probability ?n k
          (\<lambda>picks. newly_paid s (fst (initialize_demo_payments (\<lambda>n k. picks) now s)) = chosen)
        = probability ?n k (\<lambda>picks. ?f ` set picks = chosen)"
    by (rule probability_cong) (simp add: event)
  also have "\<dots> = 1 / real (?n choose k)"
    using chosen img by (intro probability_of_subset [OF kn inj]) simp_all
  finally show "probability ?n k
          (\<lambda>picks. newly_paid s (fst (initialize_demo_payments (\<lambda>n k. picks) now s)) = chosen)
        = 1 / real (?n choose k)" .
qed

theorem initialize_demo_payments_half_witness:
  "distinct (map eps_id (employee_payment_statuses staff))
   \<and> distinct (map pos_name (positions staff))
   \<and> filter (\<lambda>r. \<not> paid r) (employee_payment_statuses staff) \<noteq> []
   \<and> sample_positions 3 1 (last_k 3 1)
   \<and> position_lookup staff None = 0
   \<and> (\<exists>s'. initialize_demo_payments last_k (at_noon (mar 1)) staff
                = (s', [paid_message staff (at_noon (mar 1)) (status_row 3 ''E3'' None None)], Inr 1)
          \<and> length (filter paid (employee_payment_statuses s')) = 1
          \<and> newly_paid staff s' = {3})
   \<and> {2} \<subseteq> eps_id ` set (filter (\<lambda>r. \<not> paid r) (employee_payment_statuses staff))
   \<and> card {2 :: int} = 1
   \<and> probability 3 1
         (\<lambda>picks. newly_paid staff
                     (fst (initialize_demo_payments (\<lambda>n k. picks) (at_noon (mar 1)) staff)) = {2})
       = 1 / 3"
proof -
  let ?unpaid = "[status_row 1 ''E1'' (Some ''PERSONAL_TRAINER'') None,
                  status_row 2 ''E2'' (Some ''RECEPTIONIST'') None,
                  status_row 3 ''E3'' None None]"
  have rows: "employee_payment_statuses staff = ?unpaid"
    by (simp add: staff_def empty_db_def)
  have ids: "distinct (map eps_id (employee_payment_statuses staff))"
    by (simp add: rows status_row_def)
  have names: "distinct (map pos_name (positions staff))"
    by (simp add: staff_def empty_db_def seeded_positions_def)
  have unpaid: "?unpaid = filter (\<lambda>r. \<not> paid r) (employee_payment_statuses staff)"
    by (simp add: rows status_row_def)
  have some: "?unpaid \<noteq> []" by simp
  have k: "(1::nat) = max 1 (length ?unpaid div 2)" by simp
  have draw: "sample_positions (length ?unpaid) 1 (last_k (length ?unpaid) 1)"
    by (simp add: sample_positions_def last_k_def)
  have selected: "[status_row 3 ''E3'' None None]
                    = map (\<lambda>i. ?unpaid ! i) (last_k (length ?unpaid) 1)"
    by (simp add: last_k_def)
  have paid0: "filter paid (employee_payment_statuses staff) = []"
    by (simp add: rows status_row_def)
  have zero: "position_lookup staff None = 0" by (simp add: position_lookup_def)
  have chosen: "{2} \<subseteq> eps_id ` set ?unpaid \<and> card {2 :: int} = 1"
    by (simp add: status_row_def)
  have key3: "eps_id (status_row 3 ''E3'' None None) = 3" by (simp add: status_row_def)
  note inst = initialize_demo_payments_half
         [where s = staff and unpaid = ?unpaid and k = 1 and draw = last_k
            and selected = "[status_row 3 ''E3'' None None]" and now = "at_noon (mar 1)"
            and chosen = "{2}",
          OF ids names unpaid some k draw selected]
  from inst paid0 key3
  have run: "\<exists>s'. initialize_demo_payments last_k (at_noon (mar 1)) staff
                = (s', [paid_message staff (at_noon (mar 1)) (status_row 3 ''E3'' None None)], Inr 1)
          \<and> length (filter paid (employee_payment_statuses s')) = 1
          \<and> newly_paid staff s' = {3}"
    by auto
  have len: "length ?unpaid = 3" by simp
  from inst
  have "{2} \<subseteq> eps_id ` set ?unpaid \<and> card {2 :: int} = 1
          \<longrightarrow> probability (length ?unpaid) 1
                (\<lambda>picks. newly_paid staff
                     (fst (initialize_demo_payments (\<lambda>n k. picks) (at_noon (mar 1)) staff)) = {2})
              = 1 / real (length ?unpaid choose 1)"
    by (rule conjunct2)
  with chosen
  have "probability (length ?unpaid) 1
                (\<lambda>picks. newly_paid staff
                     (fst (initialize_demo_payments (\<lambda>n k. picks) (at_noon (mar 1)) staff)) = {2})
              = 1 / real (length ?unpaid choose 1)"
    by (rule rev_mp)
  then have uniform: "probability 3 1
         (\<lambda>picks. newly_paid staff
                     (fst (initialize_demo_payments (\<lambda>n k. picks) (at_noon (mar 1)) staff)) = {2})
       = 1 / 3"
    unfolding len by (simp only: choose_one of_nat_numeral)
  have "sample_positions 3 1 (last_k 3 1)"
    by (simp add: sample_positions_def last_k_def)
  moreover have "filter (\<lambda>r. \<not> paid r) (employee_payment_statuses staff) \<noteq> []"
    using unpaid [symmetric] by simp
  moreover from chosen unpaid
  have "{2} \<subseteq> eps_id ` set (filter (\<lambda>r. \<not> paid r) (employee_payment_statuses staff))"
    by simp
  ultimately show ?thesis using ids names zero run uniform by simp
qed

section \<open>Manual expenses and the ledger\<close>

lemma create_manual_expense_entry_cases:
  "create_manual_expense_entry c2 m now s =
     (if length (manual_description m) \<le> 255 \<and> 0 < me_value m
      then (if c2
            then (s\<lparr>expenses := expenses s @ [manual_entry m now s],
                     expenses_seq := expenses_seq s + 1\<rparr>,
                  Inr (manual_entry m now s))
            else (s, Inl DBAPIError))
      else (s, Inl ValidationError))"
  by (simp add: create_manual_expense_entry_def ExpenseCreate_def create_expense_def Let_def
      manual_entry_def)

lemma create_manual_expense_cases:
  "create_manual_expense c1 c2 d now s =
     (if \<not> ManualExpenseCreate d then (s, Inl ValidationError)
      else if \<not> c1 then (s, Inl DBAPIError)
      else if \<not> length (manual_description (new_manual_expense d now s)) \<le> 255
      then (s\<lparr>manual_expenses := manual_expenses s @ [new_manual_expense d now s],
              manual_expenses_seq := manual_expenses_seq s + 1\<rparr>, Inl ValidationError)
      else if \<not> c2
      then (s\<lparr>manual_expenses := manual_expenses s @ [new_manual_expense d now s],
              manual_expenses_seq := manual_expenses_seq s + 1\<rparr>, Inl DBAPIError)
      else (s\<lparr>manual_expenses := manual_expenses s @ [new_manual_expense d now s],
              manual_expenses_seq := manual_expenses_seq s + 1,
              expenses := expenses s @ [manual_entry (new_manual_expense d now s) now s],
              expenses_seq := expenses_seq s + 1\<rparr>,
            Inr (new_manual_expense d now s,
                 [(''finance.expense.registered'',
                   Expense_registered (mec_value d) (mec_category d) (mec_description d)
                     (mec_date d) (mec_responsible d))])))"
  by (auto simp: create_manual_expense_def create_manual_expense_entry_cases Let_def
      manual_entry_def ManualExpenseCreate_def new_manual_expense_def)

text \<open>
  Claim C2, as it stands, is refuted: a valid request whose description has 300
  characters passes the first commit, then the ledger row's description (over 255
  characters) fails \<open>ExpenseCreate\<close>: the call fails, the manual expense row stays
  committed and the ledger has no row for it.
\<close>

theorem create_manual_expense_not_atomic_counterexample:
  "ManualExpenseCreate long_note
   \<and> snd (create_manual_expense True True long_note (at_noon (mar 3)) empty_db)
       = Inl ValidationError
   \<and> manual_expenses (fst (create_manual_expense True True long_note (at_noon (mar 3)) empty_db))
       = [new_manual_expense long_note (at_noon (mar 3)) empty_db]
   \<and> expenses (fst (create_manual_expense True True long_note (at_noon (mar 3)) empty_db)) = []"
  by (simp add: create_manual_expense_cases ManualExpenseCreate_def long_note_def
      manual_description_def new_manual_expense_def empty_db_def)

text \<open>
  Claim C2, amended: \<open>create_manual_expense\<close> commits the manual expense row in one
  transaction and its ledger row (kind \<open>manual\<close>, reference the new id) in a second.
  When the request is invalid or the first commit is refused nothing is committed. Once
  the first commit went through the manual expense row is in the store; when the ledger
  step then fails (the ledger description exceeds 255 characters, or the second commit is
  refused) the call fails and no ledger row is added; when it succeeds the ledger row is
  added and the call returns the new manual expense.
\<close>

theorem create_manual_expense_two_commits:
  assumes "create_manual_expense c1 c2 d now s = (s', r)"
  shows "(\<not> (ManualExpenseCreate d \<and> c1) \<longrightarrow> s' = s \<and> (\<exists>e. r = Inl e))
     \<and> (ManualExpenseCreate d \<and> c1
          \<longrightarrow> manual_expenses s' = manual_expenses s @ [new_manual_expense d now s])
     \<and> (ManualExpenseCreate d \<and> c1
          \<and> \<not> (length (manual_description (new_manual_expense d now s)) \<le> 255 \<and> c2)
          \<longrightarrow> (\<exists>e. r = Inl e) \<and> expenses s' = expenses s)
     \<and> (ManualExpenseCreate d \<and> c1
          \<and> length (manual_description (new_manual_expense d now s)) \<le> 255 \<and> c2
          \<longrightarrow> (\<exists>out. r = Inr (new_manual_expense d now s, out))
              \<and> expenses s' = expenses s @ [manual_entry (new_manual_expense d now s) now s])"
  using assms by (auto simp: create_manual_expense_cases split: if_splits)

theorem create_manual_expense_two_commits_witness:
  "\<not> (ManualExpenseCreate office_supplies \<and> False)
   \<and> create_manual_expense False True office_supplies (at_noon (mar 3)) empty_db
       = (empty_db, Inl DBAPIError)
   \<and> ManualExpenseCreate long_note
   \<and> \<not> length (manual_description (new_manual_expense long_note (at_noon (mar 3)) empty_db)) \<le> 255
   \<and> (\<exists>s' e. create_manual_expense True True long_note (at_noon (mar 3)) empty_db = (s', Inl e)
          \<and> manual_expenses s' = [new_manual_expense long_note (at_noon (mar 3)) empty_db]
          \<and> expenses s' = [])
   \<and> ManualExpenseCreate office_supplies
   \<and> length (manual_description (new_manual_expense office_supplies (at_noon (mar 3)) empty_db)) \<le> 255
   \<and> (\<exists>s' out. create_manual_expense True True office_supplies (at_noon (mar 3)) empty_db
                   = (s', Inr (new_manual_expense office_supplies (at_noon (mar 3)) empty_db, out))
          \<and> manual_expenses s' = [new_manual_expense office_supplies (at_noon (mar 3)) empty_db]
          \<and> expenses s' = [manual_entry
                (new_manual_expense office_supplies (at_noon (mar 3)) empty_db)
                (at_noon (mar 3)) empty_db])"
proof -
  let ?t = "at_noon (mar 3)"
  have valid: "ManualExpenseCreate office_supplies" "ManualExpenseCreate long_note"
    by (simp_all add: ManualExpenseCreate_def office_supplies_def long_note_def)
  have long: "\<not> length (manual_description (new_manual_expense long_note ?t empty_db)) \<le> 255"
    by (simp add: manual_description_def new_manual_expense_def long_note_def)
  have short: "length (manual_description (new_manual_expense office_supplies ?t empty_db)) \<le> 255"
    by (simp add: manual_description_def new_manual_expense_def office_supplies_def)
  have empty: "manual_expenses empty_db = []" "expenses empty_db = []"
    by (simp_all add: empty_db_def)
  obtain s1 r1 where c1: "create_manual_expense False True office_supplies ?t empty_db = (s1, r1)"
    by (cases "create_manual_expense False True office_supplies ?t empty_db")
  obtain s2 r2 where c2: "create_manual_expense True True long_note ?t empty_db = (s2, r2)"
    by (cases "create_manual_expense True True long_note ?t empty_db")
  obtain s3 r3 where c3: "create_manual_expense True True office_supplies ?t empty_db = (s3, r3)"
    by (cases "create_manual_expense True True office_supplies ?t empty_db")
  have r1: "r1 = Inl DBAPIError" using c1 valid
    by (simp add: create_manual_expense_def)
  from create_manual_expense_two_commits [OF c1] r1 c1
  have first: "create_manual_expense False True office_supplies ?t empty_db
                 = (empty_db, Inl DBAPIError)"
    by simp
  from create_manual_expense_two_commits [OF c2] valid long empty c2
  have second: "\<exists>s' e. create_manual_expense True True long_note ?t empty_db = (s', Inl e)
          \<and> manual_expenses s' = [new_manual_expense long_note ?t empty_db]
          \<and> expenses s' = []"
    by auto
  from create_manual_expense_two_commits [OF c3] valid short empty c3
  have third: "\<exists>s' out. create_manual_expense True True office_supplies ?t empty_db
                   = (s', Inr (new_manual_expense office_supplies ?t empty_db, out))
          \<and> manual_expenses s' = [new_manual_expense office_supplies ?t empty_db]
          \<and> expenses s' = [manual_entry (new_manual_expense office_supplies ?t empty_db) ?t empty_db]"
    by auto
  from first second third valid long short show ?thesis by simp
qed

lemma delete_expense_by_reference_cases:
  "delete_expense_by_reference c ty ref s =
     (case ledger_rows ty ref s of
        [] \<Rightarrow> (s, Inr False)
      | [found] \<Rightarrow>
          (if c then (s\<lparr>expenses := filter (\<lambda>e. exp_id e \<noteq> exp_id found) (expenses s)\<rparr>, Inr True)
           else (s, Inl DBAPIError))
      | _ \<Rightarrow> (s, Inl MultipleResultsFound))"
  by (cases "ledger_rows ty ref s" rule: scalar_one_or_none.cases)
     (auto simp: delete_expense_by_reference_def ledger_rows_def)

lemma delete_expense_by_reference_none_left:
  assumes "delete_expense_by_reference c ty ref s = (s', Inr removed)"
  shows "ledger_rows ty ref s' = []"
proof (cases "ledger_rows ty ref s" rule: scalar_one_or_none.cases)
  case 1
  with assms show ?thesis by (simp add: delete_expense_by_reference_cases)
next
  case (2 found)
  then have "filter (\<lambda>e. exp_id e \<noteq> exp_id found) (ledger_rows ty ref s) = []" by simp
  then have "ledger_rows ty ref (s\<lparr>expenses := filter (\<lambda>e. exp_id e \<noteq> exp_id found) (expenses s)\<rparr>) = []"
    by (simp add: ledger_rows_def conj_commute)
  with 2 assms show ?thesis
    by (auto simp: delete_expense_by_reference_cases split: if_splits)
next
  case (3 x y zs)
  with assms show ?thesis by (simp add: delete_expense_by_reference_cases)
qed

lemma delete_manual_expense_success:
  assumes "delete_manual_expense c1 c2 i now s = (s', Inr out)"
  shows "ledger_rows ''manual'' i s' = []
       \<and> filter (\<lambda>m. me_id m = i) (manual_expenses s') = []"
proof -
  from assms obtain found where found: "filter (\<lambda>m. me_id m = i) (manual_expenses s) = [found]"
    by (cases "filter (\<lambda>m. me_id m = i) (manual_expenses s)" rule: scalar_one_or_none.cases)
       (auto simp: delete_manual_expense_def)
  then have "found \<in> set (filter (\<lambda>m. me_id m = i) (manual_expenses s))" by simp
  then have id: "me_id found = i" by simp
  obtain s1 r1 where d: "delete_expense_by_reference c1 ''manual'' i s = (s1, r1)"
    by (cases "delete_expense_by_reference c1 ''manual'' i s")
  with assms found obtain removed where r1: "r1 = Inr removed"
    by (cases r1) (auto simp: delete_manual_expense_def)
  from assms found d r1
  have s': "s' = s1\<lparr>manual_expenses := filter (\<lambda>m. me_id m \<noteq> me_id found) (manual_expenses s1)\<rparr>"
    by (auto simp: delete_manual_expense_def split: if_splits)
  from delete_expense_by_reference_none_left [OF d [unfolded r1]]
  have "ledger_rows ''manual'' i s1 = []" .
  then have "ledger_rows ''manual'' i s' = []" by (simp add: s' ledger_rows_def)
  moreover have "filter (\<lambda>m. me_id m = i) (manual_expenses s') = []"
    by (auto simp: s' id filter_empty_conv)
  ultimately show ?thesis by simp
qed

lemma create_manual_expense_success_count:
  assumes "manual_refs_allocated s"
    and "create_manual_expense c1 c2 d now s = (s', Inr (m, out))"
  shows "ledger_rows ''manual'' (me_id m) s' = [manual_entry m now s]"
proof -
  from assms(2) have m: "m = new_manual_expense d now s"
    and ex: "expenses s' = expenses s @ [manual_entry m now s]"
    by (auto simp: create_manual_expense_cases split: if_splits)
  have id: "me_id m = manual_expenses_seq s" by (simp add: m new_manual_expense_def)
  from assms(1) have "ledger_rows ''manual'' (manual_expenses_seq s) s = []"
    by (auto simp: manual_refs_allocated_def ledger_rows_def list_all_iff filter_empty_conv)
  then show ?thesis
    by (simp add: ledger_rows_def ex id manual_entry_def)
qed

lemma ledger_bijection_iff:
  "ledger_bijection s \<longleftrightarrow>
     (\<forall>m\<in>set (manual_expenses s). length (ledger_rows ''manual'' (me_id m) s) = 1)
     \<and> (\<forall>e\<in>set (expenses s). expense_type e = ''manual'' \<longrightarrow>
           (\<exists>m\<in>set (manual_expenses s). reference_id e = Some (me_id m)))"
proof -
  have eq: "\<And>e. (case reference_id e of
                 None \<Rightarrow> False
               | Some r \<Rightarrow> list_ex (\<lambda>m. me_id m = r) (manual_expenses s))
             = (\<exists>m\<in>set (manual_expenses s). reference_id e = Some (me_id m))"
    by (auto simp: list_ex_iff split: option.splits)
  show ?thesis by (simp add: ledger_bijection_def list_all_iff eq)
qed

lemma primary_keys_iff:
  "primary_keys s \<longleftrightarrow>
     distinct (map me_id (manual_expenses s))
     \<and> (\<forall>m\<in>set (manual_expenses s). me_id m < manual_expenses_seq s)
     \<and> distinct (map exp_id (expenses s))
     \<and> (\<forall>e\<in>set (expenses s). exp_id e < expenses_seq s)"
  by (simp add: primary_keys_def list_all_iff)

lemma manual_refs_allocated_iff:
  "manual_refs_allocated s \<longleftrightarrow>
     (\<forall>e\<in>set (expenses s). expense_type e = ''manual'' \<longrightarrow>
        (\<exists>r. reference_id e = Some r \<and> r < manual_expenses_seq s))"
  by (auto simp: manual_refs_allocated_def list_all_iff split: option.splits)

lemma bijection_refs_allocated:
  assumes "primary_keys s" and "ledger_bijection s"
  shows "manual_refs_allocated s"
  using assms
  by (fastforce simp: manual_refs_allocated_iff primary_keys_iff ledger_bijection_iff)

lemma create_keeps_refs_allocated:
  assumes "manual_refs_allocated s"
  shows "manual_refs_allocated (fst (create_manual_expense c1 c2 d now s))"
  using assms
  by (auto simp: create_manual_expense_cases manual_refs_allocated_iff manual_entry_def
      new_manual_expense_def)

lemma create_keeps_primary_keys:
  assumes "primary_keys s"
  shows "primary_keys (fst (create_manual_expense c1 c2 d now s))"
  using assms
  by (auto simp: create_manual_expense_cases primary_keys_iff manual_entry_def
      new_manual_expense_def)

lemma delete_expense_by_reference_expenses:
  "\<exists>P. expenses (fst (delete_expense_by_reference c ty ref s)) = filter P (expenses s)
      \<and> manual_expenses (fst (delete_expense_by_reference c ty ref s)) = manual_expenses s
      \<and> manual_expenses_seq (fst (delete_expense_by_reference c ty ref s)) = manual_expenses_seq s
      \<and> expenses_seq (fst (delete_expense_by_reference c ty ref s)) = expenses_seq s"
proof (cases "ledger_rows ty ref s" rule: scalar_one_or_none.cases)
  case 1
  then show ?thesis
    by (auto simp: delete_expense_by_reference_cases intro: exI [of _ "\<lambda>e. True"])
next
  case (2 found)
  show ?thesis
  proof (cases c)
    case True
    with 2 show ?thesis by (auto simp: delete_expense_by_reference_cases)
  next
    case False
    with 2 show ?thesis
      by (auto simp: delete_expense_by_reference_cases intro: exI [of _ "\<lambda>e. True"])
  qed
next
  case (3 x y zs)
  then show ?thesis
    by (auto simp: delete_expense_by_reference_cases intro: exI [of _ "\<lambda>e. True"])
qed

lemma delete_manual_expense_cases:
  "delete_manual_expense c1 c2 i now s =
     (case filter (\<lambda>m. me_id m = i) (manual_expenses s) of
        [] \<Rightarrow> (s, Inl HTTP_404_NOT_FOUND)
      | [found] \<Rightarrow>
          (case delete_expense_by_reference c1 ''manual'' i s of
             (s1, Inl e) \<Rightarrow> (s1, Inl e)
           | (s1, Inr removed) \<Rightarrow>
               (if c2
                then (s1\<lparr>manual_expenses := filter (\<lambda>m. me_id m \<noteq> i) (manual_expenses s1)\<rparr>,
                      Inr [(''finance.expense.deleted'', Expense_deleted i now)])
                else (s1, Inl DBAPIError)))
      | _ \<Rightarrow> (s, Inl MultipleResultsFound))"
proof (cases "filter (\<lambda>m. me_id m = i) (manual_expenses s)" rule: scalar_one_or_none.cases)
  case 1
  then show ?thesis by (simp add: delete_manual_expense_def)
next
  case (2 found)
  then have "found \<in> set (filter (\<lambda>m. me_id m = i) (manual_expenses s))" by simp
  then have "me_id found = i" by simp
  with 2 show ?thesis by (simp add: delete_manual_expense_def split: prod.splits sum.splits)
next
  case (3 x y zs)
  then show ?thesis by (simp add: delete_manual_expense_def)
qed

lemma delete_manual_expense_tables:
  "\<exists>P Q. expenses (fst (delete_manual_expense c1 c2 i now s)) = filter P (expenses s)
      \<and> manual_expenses (fst (delete_manual_expense c1 c2 i now s)) = filter Q (manual_expenses s)
      \<and> manual_expenses_seq (fst (delete_manual_expense c1 c2 i now s)) = manual_expenses_seq s
      \<and> expenses_seq (fst (delete_manual_expense c1 c2 i now s)) = expenses_seq s"
proof -
  have same: "\<exists>P Q. expenses s = filter P (expenses s)
                \<and> manual_expenses s = filter Q (manual_expenses s)"
    by (intro exI [of _ "\<lambda>x. True"]) simp
  obtain P where P: "expenses (fst (delete_expense_by_reference c1 ''manual'' i s)) = filter P (expenses s)"
     "manual_expenses (fst (delete_expense_by_reference c1 ''manual'' i s)) = manual_expenses s"
     "manual_expenses_seq (fst (delete_expense_by_reference c1 ''manual'' i s)) = manual_expenses_seq s"
     "expenses_seq (fst (delete_expense_by_reference c1 ''manual'' i s)) = expenses_seq s"
    using delete_expense_by_reference_expenses [of c1 "''manual''" i s] by blast
  show ?thesis
  proof (cases "filter (\<lambda>m. me_id m = i) (manual_expenses s)" rule: scalar_one_or_none.cases)
    case 1
    with same show ?thesis by (simp add: delete_manual_expense_cases)
  next
    case (3 x y zs)
    with same show ?thesis by (simp add: delete_manual_expense_cases)
  next
    case (2 found)
    obtain s1 r1 where d: "delete_expense_by_reference c1 ''manual'' i s = (s1, r1)"
      by (cases "delete_expense_by_reference c1 ''manual'' i s")
    with P have P1: "expenses s1 = filter P (expenses s)" "manual_expenses s1 = manual_expenses s"
      "manual_expenses_seq s1 = manual_expenses_seq s" "expenses_seq s1 = expenses_seq s"
      by simp_all
    have keep: "\<exists>P Q. expenses s1 = filter P (expenses s)
                \<and> manual_expenses s1 = filter Q (manual_expenses s)"
      using P1 by (intro exI [of _ P] exI [of _ "\<lambda>x. True"]) simp
    have drop: "\<exists>P Q. expenses s1 = filter P (expenses s)
                \<and> filter (\<lambda>m. me_id m \<noteq> i) (manual_expenses s1) = filter Q (manual_expenses s)"
      using P1 by (intro exI [of _ P] exI [of _ "\<lambda>m. me_id m \<noteq> i"]) simp
    show ?thesis
    proof (cases r1)
      case (Inl e)
      with 2 d keep P1 show ?thesis by (simp add: delete_manual_expense_cases)
    next
      case (Inr removed)
      with 2 d keep drop P1 show ?thesis
        by (cases c2) (simp_all add: delete_manual_expense_cases)
    qed
  qed
qed

lemma delete_keeps_refs_allocated:
  assumes "manual_refs_allocated s"
  shows "manual_refs_allocated (fst (delete_manual_expense c1 c2 i now s))"
  using assms delete_manual_expense_tables [of c1 c2 i now s]
  by (auto simp: manual_refs_allocated_iff)

lemma delete_keeps_primary_keys:
  assumes "primary_keys s"
  shows "primary_keys (fst (delete_manual_expense c1 c2 i now s))"
  using assms delete_manual_expense_tables [of c1 c2 i now s]
  by (auto simp: primary_keys_iff distinct_map_filter)

lemma create_keeps_bijection:
  assumes pk: "primary_keys s" and bij: "ledger_bijection s"
    and ok: "create_manual_expense c1 c2 d now s = (s', Inr (m, out))"
  shows "ledger_bijection s'"
proof -
  let ?en = "manual_entry m now s"
  from ok have m: "m = new_manual_expense d now s"
    and ex: "expenses s' = expenses s @ [?en]"
    and me: "manual_expenses s' = manual_expenses s @ [m]"
    by (auto simp: create_manual_expense_cases split: if_splits)
  have id: "me_id m = manual_expenses_seq s" by (simp add: m new_manual_expense_def)
  have rows: "\<And>r. ledger_rows ''manual'' r s'
                  = ledger_rows ''manual'' r s @ (if r = me_id m then [?en] else [])"
    by (auto simp: ledger_rows_def ex manual_entry_def)
  from bijection_refs_allocated [OF pk bij]
  have fresh: "ledger_rows ''manual'' (me_id m) s = []"
    by (auto simp: manual_refs_allocated_iff ledger_rows_def id filter_empty_conv)
  have old: "\<And>m'. m' \<in> set (manual_expenses s) \<Longrightarrow> me_id m' \<noteq> me_id m"
    using pk by (auto simp: primary_keys_iff id)
  have b1: "\<forall>m'\<in>set (manual_expenses s'). length (ledger_rows ''manual'' (me_id m') s') = 1"
  proof
    fix m' assume "m' \<in> set (manual_expenses s')"
    then consider "m' = m" | "m' \<in> set (manual_expenses s)" by (auto simp: me)
    then show "length (ledger_rows ''manual'' (me_id m') s') = 1"
    proof cases
      case 1
      then show ?thesis by (simp add: rows fresh)
    next
      case 2
      with bij have "length (ledger_rows ''manual'' (me_id m') s) = 1"
        by (simp add: ledger_bijection_iff)
      with old [OF 2] show ?thesis by (simp add: rows)
    qed
  qed
  have b2: "\<forall>e\<in>set (expenses s'). expense_type e = ''manual'' \<longrightarrow>
           (\<exists>m'\<in>set (manual_expenses s'). reference_id e = Some (me_id m'))"
    using bij by (auto simp: ledger_bijection_iff ex me manual_entry_def)
  from b1 b2 show ?thesis by (simp add: ledger_bijection_iff)
qed

lemma delete_keeps_bijection:
  assumes pk: "primary_keys s" and bij: "ledger_bijection s"
    and ok: "delete_manual_expense c1 c2 i now s = (s', Inr out)"
  shows "ledger_bijection s'"
proof -
  from ok obtain found where found: "filter (\<lambda>m. me_id m = i) (manual_expenses s) = [found]"
    by (cases "filter (\<lambda>m. me_id m = i) (manual_expenses s)" rule: scalar_one_or_none.cases)
       (auto simp: delete_manual_expense_cases)
  then have "found \<in> set (filter (\<lambda>m. me_id m = i) (manual_expenses s))" by simp
  then have live: "found \<in> set (manual_expenses s)" and fid: "me_id found = i" by simp_all
  with bij obtain e0 where e0: "ledger_rows ''manual'' i s = [e0]"
    by (cases "ledger_rows ''manual'' i s" rule: scalar_one_or_none.cases)
       (auto simp: ledger_bijection_iff)
  then have "e0 \<in> set (ledger_rows ''manual'' i s)" by simp
  then have e0_in: "e0 \<in> set (expenses s)" and e0_ref: "reference_id e0 = Some i"
    by (simp_all add: ledger_rows_def)
  have key: "\<And>e. e \<in> set (expenses s) \<Longrightarrow> (exp_id e = exp_id e0) = (e = e0)"
    using pk e0_in by (meson primary_keys_iff distinct_map inj_on_def)
  from ok found e0
  have s': "s' = s\<lparr>expenses := filter (\<lambda>e. exp_id e \<noteq> exp_id e0) (expenses s),
                   manual_expenses := filter (\<lambda>m. me_id m \<noteq> i) (manual_expenses s)\<rparr>"
    by (auto simp: delete_manual_expense_cases delete_expense_by_reference_cases
        split: if_splits)
  have ex: "expenses s' = filter (\<lambda>e. e \<noteq> e0) (expenses s)"
    using key by (auto simp: s' intro: filter_cong)
  have me: "manual_expenses s' = filter (\<lambda>m. me_id m \<noteq> i) (manual_expenses s)"
    by (simp add: s')
  have rows: "\<And>r. ledger_rows ''manual'' r s' = filter (\<lambda>e. e \<noteq> e0) (ledger_rows ''manual'' r s)"
    by (auto simp: ledger_rows_def ex intro: filter_cong)
  have b1: "\<forall>m'\<in>set (manual_expenses s'). length (ledger_rows ''manual'' (me_id m') s') = 1"
  proof
    fix m' assume "m' \<in> set (manual_expenses s')"
    then have in_s: "m' \<in> set (manual_expenses s)" and ne: "me_id m' \<noteq> i" by (auto simp: me)
    from in_s bij obtain e1 where e1: "ledger_rows ''manual'' (me_id m') s = [e1]"
      by (cases "ledger_rows ''manual'' (me_id m') s" rule: scalar_one_or_none.cases)
         (auto simp: ledger_bijection_iff)
    then have "e1 \<in> set (ledger_rows ''manual'' (me_id m') s)" by simp
    then have "reference_id e1 = Some (me_id m')" by (simp add: ledger_rows_def)
    with e0_ref ne have "e1 \<noteq> e0" by auto
    with e1 show "length (ledger_rows ''manual'' (me_id m') s') = 1" by (simp add: rows)
  qed
  have b2: "\<forall>e\<in>set (expenses s'). expense_type e = ''manual'' \<longrightarrow>
           (\<exists>m'\<in>set (manual_expenses s'). reference_id e = Some (me_id m'))"
  proof (intro ballI impI)
    fix e assume e: "e \<in> set (expenses s')" and ty: "expense_type e = ''manual''"
    then have e_in: "e \<in> set (expenses s)" and e_ne: "e \<noteq> e0" by (auto simp: ex)
    with bij ty obtain m' where m': "m' \<in> set (manual_expenses s)"
      and ref: "reference_id e = Some (me_id m')"
      by (auto simp: ledger_bijection_iff)
    have "me_id m' \<noteq> i"
    proof
      assume "me_id m' = i"
      with e_in ty ref have "e \<in> set (ledger_rows ''manual'' i s)" by (simp add: ledger_rows_def)
      with e0 e_ne show False by simp
    qed
    with m' ref show "\<exists>m'\<in>set (manual_expenses s'). reference_id e = Some (me_id m')"
      by (auto simp: me)
  qed
  from b1 b2 show ?thesis by (simp add: ledger_bijection_iff)
qed

lemma manual_refs_allocated_empty: "manual_refs_allocated empty_db"
  by (simp add: manual_refs_allocated_def empty_db_def)

lemma ledger_bijection_empty: "primary_keys empty_db \<and> ledger_bijection empty_db"
  by (simp add: primary_keys_def ledger_bijection_def empty_db_def)

lemma create_manual_expense_success_store:
  assumes "create_manual_expense c1 c2 d now s = (s', Inr (m, out))"
  shows "m = new_manual_expense d now s
       \<and> s' = s\<lparr>manual_expenses := manual_expenses s @ [m],
                 manual_expenses_seq := manual_expenses_seq s + 1,
                 expenses := expenses s @ [manual_entry m now s],
                 expenses_seq := expenses_seq s + 1\<rparr>"
  using assms by (auto simp: create_manual_expense_cases split: if_splits)

lemma create_keeps_other_rows:
  assumes "create_manual_expense c1 c2 d now s = (s', Inr (m, out))" and "q \<noteq> me_id m"
  shows "ledger_rows ''manual'' q s' = ledger_rows ''manual'' q s"
  using create_manual_expense_success_store [OF assms(1)] assms(2)
  by (auto simp: ledger_rows_def manual_entry_def)

lemma delete_manual_expense_success_store:
  assumes "delete_manual_expense c1 c2 i now s = (s', Inr out)"
  shows "s' = s\<lparr>expenses :=
                   filter (\<lambda>e. exp_id e \<notin> exp_id ` set (ledger_rows ''manual'' i s)) (expenses s),
                 manual_expenses := filter (\<lambda>m. me_id m \<noteq> i) (manual_expenses s)\<rparr>"
proof -
  from assms obtain found where found: "filter (\<lambda>m. me_id m = i) (manual_expenses s) = [found]"
    by (cases "filter (\<lambda>m. me_id m = i) (manual_expenses s)" rule: scalar_one_or_none.cases)
       (auto simp: delete_manual_expense_cases)
  show ?thesis
  proof (cases "ledger_rows ''manual'' i s" rule: scalar_one_or_none.cases)
    case 1
    with assms found show ?thesis
      by (auto simp: delete_manual_expense_cases delete_expense_by_reference_cases
          split: if_splits)
  next
    case (2 e0)
    with assms found show ?thesis
      by (auto simp: delete_manual_expense_cases delete_expense_by_reference_cases
          split: if_splits)
  next
    case (3 x y zs)
    with assms found show ?thesis
      by (auto simp: delete_manual_expense_cases delete_expense_by_reference_cases)
  qed
qed

lemma delete_keeps_other_expenses:
  assumes "delete_manual_expense c1 c2 i now s = (s', Inr out)" and "q \<noteq> i"
  shows "filter (\<lambda>m. me_id m = q) (manual_expenses s')
           = filter (\<lambda>m. me_id m = q) (manual_expenses s)"
  using assms(2) unfolding delete_manual_expense_success_store [OF assms(1)]
  by (auto intro: filter_cong)

lemma delete_keeps_other_rows:
  assumes "distinct (map exp_id (expenses s))"
    and "delete_manual_expense c1 c2 i now s = (s', Inr out)" and "q \<noteq> i"
  shows "ledger_rows ''manual'' q s' = ledger_rows ''manual'' q s"
proof -
  have "\<And>e. e \<in> set (expenses s) \<Longrightarrow> expense_type e = ''manual'' \<Longrightarrow> reference_id e = Some q
          \<Longrightarrow> exp_id e \<notin> exp_id ` set (ledger_rows ''manual'' i s)"
  proof
    fix e assume e: "e \<in> set (expenses s)" "expense_type e = ''manual''" "reference_id e = Some q"
      and "exp_id e \<in> exp_id ` set (ledger_rows ''manual'' i s)"
    then obtain f where f: "f \<in> set (ledger_rows ''manual'' i s)" "exp_id e = exp_id f" by auto
    then have "f \<in> set (expenses s)" "reference_id f = Some i" by (simp_all add: ledger_rows_def)
    with assms(1) e(1) f(2) have "e = f" by (meson distinct_map inj_on_def)
    with e(3) \<open>reference_id f = Some i\<close> assms(3) show False by simp
  qed
  then show ?thesis
    unfolding delete_manual_expense_success_store [OF assms(2)]
    by (auto simp: ledger_rows_def intro: filter_cong)
qed

text \<open>
  Claim C4: in a store whose \<open>manual\<close> ledger rows all refer to ids already handed out
  (true of the empty store and kept by every writer of the ledger whatever its outcome),
  right after a successful \<open>create_manual_expense\<close> exactly one ledger row of kind
  \<open>manual\<close> refers to the new expense; right after a successful
  \<open>delete_manual_expense\<close> of an id no such row and no manual expense of that id is
  left. The two routes change nothing else: a successful create appends the new expense
  and its ledger row and leaves the rows of every other id as they were; a successful
  delete removes the expense of the id and the ledger row found for it, and every other
  manual expense and, the ledger's primary keys being distinct, the ledger rows of every
  other id are as before. So both routes, when they succeed, take a store with the
  bijection between live manual expenses and their ledger rows to a store with it.
\<close>

theorem manual_ledger_rows_create_delete:
  "(manual_refs_allocated s \<and> create_manual_expense c1 c2 d now s = (s', Inr (m, out))
      \<longrightarrow> ledger_rows ''manual'' (me_id m) s' = [manual_entry m now s]
          \<and> length (ledger_rows ''manual'' (me_id m) s') = 1
          \<and> m \<in> set (manual_expenses s')
          \<and> manual_refs_allocated s')
   \<and> (create_manual_expense c1 c2 d now s = (s', Inr (m, out))
      \<longrightarrow> s' = s\<lparr>manual_expenses := manual_expenses s @ [m],
                    manual_expenses_seq := manual_expenses_seq s + 1,
                    expenses := expenses s @ [manual_entry m now s],
                    expenses_seq := expenses_seq s + 1\<rparr>
          \<and> (q \<noteq> me_id m \<longrightarrow> ledger_rows ''manual'' q s' = ledger_rows ''manual'' q s))
   \<and> (delete_manual_expense c1' c2' i now' t = (t', Inr out')
      \<longrightarrow> ledger_rows ''manual'' i t' = []
          \<and> filter (\<lambda>m. me_id m = i) (manual_expenses t') = [])
   \<and> (delete_manual_expense c1' c2' i now' t = (t', Inr out')
      \<longrightarrow> t' = t\<lparr>expenses :=
                      filter (\<lambda>e. exp_id e \<notin> exp_id ` set (ledger_rows ''manual'' i t))
                        (expenses t),
                    manual_expenses := filter (\<lambda>m. me_id m \<noteq> i) (manual_expenses t)\<rparr>
          \<and> (q' \<noteq> i \<longrightarrow> filter (\<lambda>m. me_id m = q') (manual_expenses t')
                              = filter (\<lambda>m. me_id m = q') (manual_expenses t))
          \<and> (q' \<noteq> i \<and> distinct (map exp_id (expenses t))
                \<longrightarrow> ledger_rows ''manual'' q' t' = ledger_rows ''manual'' q' t))
   \<and> (manual_refs_allocated t \<longrightarrow> manual_refs_allocated (fst (delete_manual_expense c1' c2' i now' t)))
   \<and> (primary_keys s \<and> ledger_bijection s
        \<and> create_manual_expense c1 c2 d now s = (s', Inr (m, out))
      \<longrightarrow> primary_keys s' \<and> ledger_bijection s')
   \<and> (primary_keys t \<and> ledger_bijection t
        \<and> delete_manual_expense c1' c2' i now' t = (t', Inr out')
      \<longrightarrow> primary_keys t' \<and> ledger_bijection t')"
proof (intro conjI impI)
  assume a: "manual_refs_allocated s \<and> create_manual_expense c1 c2 d now s = (s', Inr (m, out))"
  then have rows: "ledger_rows ''manual'' (me_id m) s' = [manual_entry m now s]"
    using create_manual_expense_success_count by blast
  then show "ledger_rows ''manual'' (me_id m) s' = [manual_entry m now s]" .
  from rows show "length (ledger_rows ''manual'' (me_id m) s') = 1" by simp
  from a show "m \<in> set (manual_expenses s')"
    by (auto simp: create_manual_expense_cases split: if_splits)
  from a create_keeps_refs_allocated [of s c1 c2 d now]
  show "manual_refs_allocated s'" by simp
next
  assume a: "create_manual_expense c1 c2 d now s = (s', Inr (m, out))"
  from create_manual_expense_success_store [OF a]
  show "s' = s\<lparr>manual_expenses := manual_expenses s @ [m],
                    manual_expenses_seq := manual_expenses_seq s + 1,
                    expenses := expenses s @ [manual_entry m now s],
                    expenses_seq := expenses_seq s + 1\<rparr>" by simp
  assume "q \<noteq> me_id m"
  with a show "ledger_rows ''manual'' q s' = ledger_rows ''manual'' q s"
    by (rule create_keeps_other_rows)
next
  assume a: "delete_manual_expense c1' c2' i now' t = (t', Inr out')"
  from delete_manual_expense_success [OF a]
  show "ledger_rows ''manual'' i t' = []"
    and "filter (\<lambda>m. me_id m = i) (manual_expenses t') = []" by simp_all
next
  assume a: "delete_manual_expense c1' c2' i now' t = (t', Inr out')"
  from delete_manual_expense_success_store [OF a]
  show "t' = t\<lparr>expenses :=
                      filter (\<lambda>e. exp_id e \<notin> exp_id ` set (ledger_rows ''manual'' i t))
                        (expenses t),
                    manual_expenses := filter (\<lambda>m. me_id m \<noteq> i) (manual_expenses t)\<rparr>" .
  {
    assume "q' \<noteq> i"
    with a show "filter (\<lambda>m. me_id m = q') (manual_expenses t')
                              = filter (\<lambda>m. me_id m = q') (manual_expenses t)"
      by (rule delete_keeps_other_expenses)
  }
  {
    assume "q' \<noteq> i \<and> distinct (map exp_id (expenses t))"
    with a show "ledger_rows ''manual'' q' t' = ledger_rows ''manual'' q' t"
      by (blast intro: delete_keeps_other_rows)
  }
next
  assume "manual_refs_allocated t"
  then show "manual_refs_allocated (fst (delete_manual_expense c1' c2' i now' t))"
    by (rule delete_keeps_refs_allocated)
next
  assume a: "primary_keys s \<and> ledger_bijection s
        \<and> create_manual_expense c1 c2 d now s = (s', Inr (m, out))"
  with create_keeps_primary_keys [of s c1 c2 d now] show "primary_keys s'" by simp
  from a show "ledger_bijection s'" by (blast intro: create_keeps_bijection)
next
  assume a: "primary_keys t \<and> ledger_bijection t
        \<and> delete_manual_expense c1' c2' i now' t = (t', Inr out')"
  with delete_keeps_primary_keys [of t c1' c2' i now'] show "primary_keys t'" by simp
  from a show "ledger_bijection t'" by (blast intro: delete_keeps_bijection)
qed

theorem manual_ledger_rows_create_delete_witness:
  "manual_refs_allocated one_expense \<and> primary_keys one_expense \<and> ledger_bijection one_expense
   \<and> (\<exists>out. create_manual_expense True True gym_mats (at_noon (mar 4)) one_expense
               = (two_expenses, Inr (mats_expense, out)))
   \<and> me_id office_expense = 1 \<and> me_id mats_expense = 2
   \<and> length (ledger_rows ''manual'' (me_id mats_expense) two_expenses) = 1
   \<and> ledger_rows ''manual'' 1 two_expenses = ledger_rows ''manual'' 1 one_expense
   \<and> ledger_rows ''manual'' 1 one_expense = [manual_entry office_expense (at_noon (mar 3)) empty_db]
   \<and> manual_refs_allocated two_expenses \<and> primary_keys two_expenses
   \<and> ledger_bijection two_expenses
   \<and> (\<exists>t' out'. delete_manual_expense True True 1 (at_noon (mar 5)) two_expenses = (t', Inr out')
          \<and> ledger_rows ''manual'' 1 t' = []
          \<and> manual_expenses t' = [mats_expense]
          \<and> ledger_rows ''manual'' 2 t' = [manual_entry mats_expense (at_noon (mar 4)) one_expense]
          \<and> primary_keys t' \<and> ledger_bijection t')"
proof -
  let ?e1 = "manual_entry office_expense (at_noon (mar 3)) empty_db"
  let ?e2 = "manual_entry mats_expense (at_noon (mar 4)) one_expense"
  have id1: "me_id office_expense = 1"
    by (simp add: office_expense_def new_manual_expense_def empty_db_def)
  have id2: "me_id mats_expense = 2"
    by (simp add: mats_expense_def new_manual_expense_def one_expense_def)
  have ref1: "expense_type ?e1 = ''manual''" "reference_id ?e1 = Some 1" "exp_id ?e1 = 1"
    by (simp_all add: manual_entry_def id1 empty_db_def)
  have ref2: "expense_type ?e2 = ''manual''" "reference_id ?e2 = Some 2" "exp_id ?e2 = 2"
    by (simp_all add: manual_entry_def id2 one_expense_def)
  have one: "manual_expenses one_expense = [office_expense]" "expenses one_expense = [?e1]"
    "manual_expenses_seq one_expense = 2" "expenses_seq one_expense = 2"
    by (simp_all add: one_expense_def)
  have two: "manual_expenses two_expenses = [office_expense, mats_expense]"
    "expenses two_expenses = [?e1, ?e2]"
    by (simp_all add: two_expenses_def)
  have start: "manual_refs_allocated one_expense" "primary_keys one_expense"
    "ledger_bijection one_expense"
    by (simp_all add: manual_refs_allocated_def primary_keys_def ledger_bijection_def
        ledger_rows_def one ref1 id1)
  have made: "create_manual_expense True True gym_mats (at_noon (mar 4)) one_expense
                = (two_expenses, Inr (mats_expense,
                     [(''finance.expense.registered'',
                       Expense_registered 300 ''Equipment'' None (mar 4) ''Bruno'')]))"
    by (simp add: create_manual_expense_cases ManualExpenseCreate_def gym_mats_def
        manual_description_def new_manual_expense_def two_expenses_def mats_expense_def
        one_expense_def)
  have rows1: "ledger_rows ''manual'' 1 one_expense = [?e1]"
    by (simp add: ledger_rows_def one ref1)
  have rows2: "ledger_rows ''manual'' 2 two_expenses = [?e2]"
    by (simp add: ledger_rows_def two ref1 ref2)
  have rows1': "ledger_rows ''manual'' 1 two_expenses = [?e1]"
    by (simp add: ledger_rows_def two ref1 ref2)
  have live: "filter (\<lambda>m. me_id m = 1) (manual_expenses two_expenses) = [office_expense]"
    by (simp add: two id1 id2)
  have keys: "distinct (map exp_id (expenses two_expenses))"
    by (simp add: two ref1 ref2)
  obtain t' where gone: "delete_manual_expense True True 1 (at_noon (mar 5)) two_expenses
                = (t', Inr [(''finance.expense.deleted'', Expense_deleted 1 (at_noon (mar 5)))])"
    by (simp add: delete_manual_expense_cases delete_expense_by_reference_cases live rows1')
  note inst = manual_ledger_rows_create_delete
         [where s = one_expense and s' = two_expenses and ?c1.0 = True and ?c2.0 = True
            and d = gym_mats and now = "at_noon (mar 4)" and m = mats_expense and q = 1
            and t = two_expenses and t' = t' and c1' = True and c2' = True and i = 1
            and now' = "at_noon (mar 5)" and q' = 2]
  from inst start made id2
  have after: "length (ledger_rows ''manual'' (me_id mats_expense) two_expenses) = 1"
    "ledger_rows ''manual'' 1 two_expenses = ledger_rows ''manual'' 1 one_expense"
    "manual_refs_allocated two_expenses" "primary_keys two_expenses"
    "ledger_bijection two_expenses"
    by auto
  from inst after gone keys
  have none: "ledger_rows ''manual'' 1 t' = []"
    and kept: "ledger_rows ''manual'' 2 t' = ledger_rows ''manual'' 2 two_expenses"
    and store: "t' = two_expenses\<lparr>expenses :=
                      filter (\<lambda>e. exp_id e \<notin> exp_id ` set (ledger_rows ''manual'' 1 two_expenses))
                        (expenses two_expenses),
                    manual_expenses := filter (\<lambda>m. me_id m \<noteq> 1) (manual_expenses two_expenses)\<rparr>"
    and bij: "primary_keys t'" "ledger_bijection t'"
    by auto
  from store have left: "manual_expenses t' = [mats_expense]"
    by (simp add: two id1 id2)
  from start made id1 id2 after rows1 gone none kept rows2 left bij
  show ?thesis by auto
qed

section \<open>Payment confirmation and the ledger\<close>

lemma confirm_payment_leaves_ledger:
  "expenses (fst (confirm_payment i j now s)) = expenses s"
  by (auto simp: confirm_payment_def update_employee_payment_status_def Let_def
      split: sum.splits option.splits)

lemma initialize_demo_payments_leaves_ledger:
  assumes "distinct (map pos_name (positions s))"
  shows "expenses (fst (initialize_demo_payments draw now s)) = expenses s"
proof -
  have fold: "\<And>sel. expenses
        (foldl (\<lambda>s e. update_employee_payment_status (mark_paid now e) s) s sel) = expenses s"
  proof -
    fix sel show "expenses
        (foldl (\<lambda>s e. update_employee_payment_status (mark_paid now e) s) s sel) = expenses s"
      by (induction sel arbitrary: s) (simp_all add: update_employee_payment_status_def)
  qed
  show ?thesis
    by (auto simp: initialize_demo_payments_def Let_def pay_selected_run [OF assms] fold
        split: sum.splits)
qed

text \<open>
  Claim C1 at the input of the specification's round trip: employee \<open>E1\<close>, a
  \<open>PERSONAL_TRAINER\<close> with base salary 3500, is confirmed paid. The record is marked
  paid with the payment date and the three messages carry the amount 3500, but the
  ledger is as empty as before: \<open>confirm_payment\<close> never writes a ledger row
  (\<open>confirm_payment_leaves_ledger\<close>).
\<close>

theorem confirm_payment_writes_no_ledger_row:
  "snd (confirm_payment ''E1'' ''E1'' (at_noon (mar 5)) staff)
     = Inr (mark_paid (at_noon (mar 5)) (status_row 1 ''E1'' (Some ''PERSONAL_TRAINER'') None),
            [(''employee-paid-queue'',
              Employee_paid ''E1'' 3500 (Some ''PERSONAL_TRAINER'') 3 2025 (at_noon (mar 5))),
             (''analytics-employee-status-changed-queue'', Employee_status_changed ''E1'' True),
             (''user-employee-status-changed-queue'', Employee_status_changed ''E1'' True)])
   \<and> by_employee_id ''E1'' (fst (confirm_payment ''E1'' ''E1'' (at_noon (mar 5)) staff))
       = [mark_paid (at_noon (mar 5)) (status_row 1 ''E1'' (Some ''PERSONAL_TRAINER'') None)]
   \<and> expenses staff = []
   \<and> expenses (fst (confirm_payment ''E1'' ''E1'' (at_noon (mar 5)) staff)) = []"
  by (simp add: confirm_payment_def by_employee_id_def staff_def empty_db_def status_row_def
      salary_amount_def seeded_positions_def update_employee_payment_status_def mark_paid_def
      Let_def at_noon_def mar_def)

section \<open>The other writers of the ledger\<close>

text \<open>
  The demo seed of the startup and \<open>create_employee_payment_entry\<close> add no row of kind
  \<open>manual\<close>, so they too keep every \<open>manual\<close> ledger row referring to an id the
  sequence has handed out.
\<close>

lemma add_expenses_keeps_refs_allocated:
  assumes "manual_refs_allocated s" and "list_all (\<lambda>d. ec_expense_type d \<noteq> ''manual'') rows"
  shows "manual_refs_allocated (fst (add_expenses now rows s n))"
  using assms
  by (induction rows arbitrary: s n) (auto simp: manual_refs_allocated_iff)

lemma seed_demo_expenses_keeps_refs_allocated:
  assumes "manual_refs_allocated s"
  shows "manual_refs_allocated (fst (seed_demo_expenses now s))"
proof -
  have "list_all (\<lambda>d. ec_expense_type d \<noteq> ''manual'') demo_expenses"
    by (simp add: demo_expenses_def)
  with assms show ?thesis
    by (simp add: seed_demo_expenses_def add_expenses_keeps_refs_allocated)
qed

lemma create_employee_payment_entry_keeps_refs_allocated:
  assumes "manual_refs_allocated s"
  shows "manual_refs_allocated (fst (create_employee_payment_entry c i amt pos pd today now s))"
  using assms
  by (auto simp: create_employee_payment_entry_def ExpenseCreate_def create_expense_def Let_def
      manual_refs_allocated_iff split: sum.splits if_splits)

lemma seed_demo_expenses_empty:
  "snd (seed_demo_expenses now empty_db) = 12"
  by (simp add: seed_demo_expenses_def demo_expenses_def empty_db_def)

end
